theory Spec2Isabelle
  imports Main "HOL-Library.AList"
begin

section \<open>Python values\<close>

text \<open>
  The SDK passes untyped Python data around: tool inputs, hook outputs, the \<open>delta\<close> of a
  stream event, a provider configuration, a container handle. They are modelled by one
  datatype of Python values; a \<open>dict\<close> is an association list (insertion order kept, keys
  unique when built with \<open>dict_set\<close>).
\<close>

datatype pyval =
    PNone
  | PBool bool
  | PInt int
  | PStr string
  | PList "pyval list"
  | PDict "(string \<times> pyval) list"

type_synonym pydict = "(string \<times> pyval) list"

text \<open>Truth value of a Python object, as \<open>if x:\<close>, \<open>x or y\<close> and \<open>not x\<close> test it.\<close>

fun truthy :: "pyval \<Rightarrow> bool" where
  "truthy PNone = False"
| "truthy (PBool b) = b"
| "truthy (PInt i) = (i \<noteq> 0)"
| "truthy (PStr s) = (s \<noteq> [])"
| "truthy (PList xs) = (xs \<noteq> [])"
| "truthy (PDict d) = (d \<noteq> [])"

text \<open>\<open>d.get(k)\<close>: the value stored under \<open>k\<close>, Python's \<open>None\<close> when the key is absent.\<close>

definition dict_get :: "pydict \<Rightarrow> string \<Rightarrow> pyval" where
  "dict_get d k = (case map_of d k of None \<Rightarrow> PNone | Some v \<Rightarrow> v)"

text \<open>\<open>d.get(k, dflt)\<close>: the default only replaces an absent key, not a stored \<open>None\<close>.\<close>

definition dict_get_default :: "pydict \<Rightarrow> string \<Rightarrow> pyval \<Rightarrow> pyval" where
  "dict_get_default d k dflt = (case map_of d k of None \<Rightarrow> dflt | Some v \<Rightarrow> v)"

text \<open>
  \<open>d[k] = v\<close> and \<open>d.update(e)\<close>. A Python dict has every key once. Should a list
  name a key twice, lookups read its first entry, and \<open>dict_update\<close> copies what lookups
  read (it sets the entries of \<open>e\<close> from the last to the first).
\<close>

definition dict_set :: "pydict \<Rightarrow> string \<Rightarrow> pyval \<Rightarrow> pydict" where
  "dict_set d k v = AList.update k v d"

definition dict_update :: "pydict \<Rightarrow> pydict \<Rightarrow> pydict" where
  "dict_update d e = foldr (\<lambda>(k, v) acc. dict_set acc k v) e d"

text \<open>\<open>a or b\<close> on Python values.\<close>

definition py_or :: "pyval \<Rightarrow> pyval \<Rightarrow> pyval" where
  "py_or a b = (if truthy a then a else b)"

text \<open>\<open>os.environ.get(name)\<close>: the environment maps names to strings.\<close>

definition environ_get :: "(string \<rightharpoonup> string) \<Rightarrow> string \<Rightarrow> pyval" where
  "environ_get env name = (case env name of None \<Rightarrow> PNone | Some s \<Rightarrow> PStr s)"


section \<open>Session manager (examples/docker/api/session\_manager.py)\<close>

datatype session_status = STARTING | RUNNING | IDLE | STOPPED | ERROR

text \<open>
  \<open>AgentSession\<close>. Times are readings of \<open>datetime.utcnow()\<close>, taken as integers; the
  container handle is the \<open>container_info\<close> dict.
\<close>

record agent_session =
  session_id :: string
  agent_id :: string
  config_id :: "string option"
  config_name :: string
  api_key :: string
  container_info :: pydict
  status :: session_status
  created_at :: int
  last_activity :: int
  message_count :: nat
  conversation_history :: "pydict list"

text \<open>
  The container manager is an external collaborator. All that \<open>cleanup_session\<close> sees of it
  is whether \<open>stop_container\<close> returns or raises; the exception is caught and logged.
\<close>

record container_manager =
  stop_container_raises :: "pydict \<Rightarrow> bool"

text \<open>
  \<open>SessionManager\<close>: the sessions dict and the optional container manager
  (\<open>None\<close> until \<open>set_container_manager\<close> is called). \<open>stop_calls\<close> is the trace of
  \<open>stop_container\<close> invocations, oldest first: the effect on the outside world that the
  Python performs and the model records.
\<close>

record session_manager =
  sessions :: "string \<rightharpoonup> agent_session"
  the_container_manager :: "container_manager option"
  stop_calls :: "pydict list"

definition new_session_manager :: session_manager where
  "new_session_manager =
     \<lparr>sessions = Map.empty, the_container_manager = None, stop_calls = []\<rparr>"

definition set_container_manager :: "container_manager \<Rightarrow> session_manager \<Rightarrow> session_manager" where
  "set_container_manager cm m = m\<lparr>the_container_manager := Some cm\<rparr>"

text \<open>
  \<open>create_session\<close>. The two identifiers come from \<open>uuid.uuid4()\<close> and the time from the
  clock; here the caller supplies them.
\<close>

definition create_session ::
  "string \<Rightarrow> string \<Rightarrow> int \<Rightarrow> string \<Rightarrow> string option \<Rightarrow> string \<Rightarrow> pydict
    \<Rightarrow> session_manager \<Rightarrow> agent_session \<times> session_manager" where
  "create_session sid aid now key cid cname cinfo m =
     (let session = \<lparr>session_id = sid, agent_id = aid, config_id = cid, config_name = cname,
                      api_key = key, container_info = cinfo, status = RUNNING,
                      created_at = now, last_activity = now, message_count = 0,
                      conversation_history = []\<rparr>
      in (session, m\<lparr>sessions := (sessions m)(sid \<mapsto> session)\<rparr>))"

datatype session_error = SessionNotFoundError string

definition get_session :: "string \<Rightarrow> session_manager \<Rightarrow> session_error + agent_session" where
  "get_session sid m =
     (case sessions m sid of
        None \<Rightarrow> Inl (SessionNotFoundError (''Session not found: '' @ sid))
      | Some session \<Rightarrow> Inr session)"

text \<open>
  \<open>cleanup_session\<close>: \<open>session = self.sessions.pop(session_id, None)\<close>, then
  \<open>if session and self._container_manager:\<close> one call of \<open>stop_container\<close> inside
  \<open>try\<close>/\<open>except Exception\<close>. An \<open>AgentSession\<close> object is always true, so the guard
  tests that the id was present and that a container manager is set.
\<close>

definition cleanup_session :: "string \<Rightarrow> session_manager \<Rightarrow> session_manager" where
  "cleanup_session sid m =
     (case sessions m sid of
        None \<Rightarrow> m
      | Some session \<Rightarrow>
          (let m' = m\<lparr>sessions := (sessions m)(sid := None)\<rparr>
           in case the_container_manager m' of
                None \<Rightarrow> m'
              | Some cm \<Rightarrow> m'\<lparr>stop_calls := stop_calls m' @ [container_info session]\<rparr>))"


section \<open>Azure client construction (providers/openai.py) and configuration (config.py)\<close>

datatype provider_error = AuthenticationError string string

text \<open>
  The keyword arguments \<open>AzureOpenAIProvider._get_client\<close> hands to \<open>AsyncAzureOpenAI\<close>.
  \<open>timeout\<close> and \<open>max_retries\<close> are copied from the configuration unchanged and are left
  out; \<open>azure_ad_token\<close> is present only when the configuration has a true value for it.
\<close>

record azure_kwargs =
  kw_api_key :: pyval
  kw_azure_endpoint :: pyval
  kw_api_version :: pyval
  kw_azure_ad_token :: "pyval option"

definition azure_get_client :: "pydict \<Rightarrow> (string \<rightharpoonup> string) \<Rightarrow> provider_error + azure_kwargs" where
  "azure_get_client config env =
     (let api_key = py_or (dict_get config ''api_key'') (environ_get env ''AZURE_OPENAI_API_KEY'');
          endpoint = py_or (dict_get config ''base_url'') (environ_get env ''AZURE_OPENAI_ENDPOINT'');
          api_version = dict_get_default config ''api_version'' (PStr ''2024-02-15-preview'')
      in if \<not> truthy api_key then
           Inl (AuthenticationError ''azure_openai''
                  ''AZURE_OPENAI_API_KEY environment variable or api_key config required'')
         else if \<not> truthy endpoint then
           Inl (AuthenticationError ''azure_openai''
                  ''AZURE_OPENAI_ENDPOINT environment variable or base_url config required'')
         else
           Inr \<lparr>kw_api_key = api_key, kw_azure_endpoint = endpoint, kw_api_version = api_version,
                kw_azure_ad_token =
                  (if truthy (dict_get config ''azure_ad_token'')
                   then Some (dict_get config ''azure_ad_token'') else None)\<rparr>)"

text \<open>The tables of config.py, as association lists in the order of the source.\<close>

definition PROVIDER_ENV_VARS :: "(string \<times> (string \<times> string) list) list" where
  "PROVIDER_ENV_VARS =
     [(''claude'', [(''api_key'', ''ANTHROPIC_API_KEY''), (''base_url'', ''ANTHROPIC_BASE_URL'')]),
      (''anthropic'', [(''api_key'', ''ANTHROPIC_API_KEY''), (''base_url'', ''ANTHROPIC_BASE_URL'')]),
      (''openai'', [(''api_key'', ''OPENAI_API_KEY''), (''base_url'', ''OPENAI_BASE_URL''),
                    (''organization'', ''OPENAI_ORG_ID'')]),
      (''azure_openai'', [(''api_key'', ''AZURE_OPENAI_API_KEY''),
                          (''azure_endpoint'', ''AZURE_OPENAI_ENDPOINT''),
                          (''api_version'', ''AZURE_OPENAI_API_VERSION''),
                          (''deployment_name'', ''AZURE_OPENAI_DEPLOYMENT'')]),
      (''gemini'', [(''api_key'', ''GOOGLE_API_KEY''), (''project_id'', ''GOOGLE_PROJECT_ID''),
                    (''location'', ''GOOGLE_LOCATION'')]),
      (''ollama'', [(''base_url'', ''OLLAMA_BASE_URL'')])]"

definition DEFAULTS :: "(string \<times> (string \<times> string) list) list" where
  "DEFAULTS =
     [(''azure_openai'', [(''api_version'', ''2024-02-01'')]),
      (''ollama'', [(''base_url'', ''http://localhost:11434'')])]"

text \<open>
  \<open>Config\<close>: the overrides set in the process and the optional secret fetcher. The
  provider name is taken in lower case already (the source lower-cases it first).
\<close>

record config =
  overrides :: "(string \<times> (string \<times> string) list) list"
  secret_fetcher :: "(string \<Rightarrow> string option) option"

definition table_get :: "(string \<times> (string \<times> string) list) list \<Rightarrow> string \<Rightarrow> (string \<times> string) list" where
  "table_get t provider = (case map_of t provider of None \<Rightarrow> [] | Some d \<Rightarrow> d)"

text \<open>\<open>Config._get_value\<close>: overrides, then the secret fetcher, then the environment, then the defaults.\<close>

definition config_get_value :: "config \<Rightarrow> (string \<rightharpoonup> string) \<Rightarrow> string \<Rightarrow> string \<Rightarrow> string option" where
  "config_get_value c env provider key =
     (case map_of (table_get (overrides c) provider) key of
        Some v \<Rightarrow> Some v
      | None \<Rightarrow>
          (let env_var = map_of (table_get PROVIDER_ENV_VARS provider) key;
               secret = (case (secret_fetcher c, env_var) of
                           (Some fetch, Some name) \<Rightarrow>
                             (case fetch name of Some s \<Rightarrow> (if s \<noteq> [] then Some s else None)
                                                | None \<Rightarrow> None)
                         | _ \<Rightarrow> None);
               from_env = (case env_var of
                             Some name \<Rightarrow>
                               (case env name of Some s \<Rightarrow> (if s \<noteq> [] then Some s else None)
                                               | None \<Rightarrow> None)
                           | None \<Rightarrow> None)
           in case secret of
                Some s \<Rightarrow> Some s
              | None \<Rightarrow>
                  (case from_env of
                     Some s \<Rightarrow> Some s
                   | None \<Rightarrow> map_of (table_get DEFAULTS provider) key)))"

text \<open>
  \<open>Config.get_provider_config\<close>: the defaults, then every key of the provider's
  environment table that resolves, then the overrides.
\<close>

definition str_dict :: "(string \<times> string) list \<Rightarrow> pydict" where
  "str_dict d = map (\<lambda>(k, v). (k, PStr v)) d"

definition get_provider_config :: "config \<Rightarrow> (string \<rightharpoonup> string) \<Rightarrow> string \<Rightarrow> pydict" where
  "get_provider_config c env provider =
     (let from_defaults = dict_update [] (str_dict (table_get DEFAULTS provider));
          from_env =
            foldl (\<lambda>acc config_key.
                     case config_get_value c env provider config_key of
                       None \<Rightarrow> acc
                     | Some v \<Rightarrow> dict_set acc config_key (PStr v))
                  from_defaults
                  (map fst (table_get PROVIDER_ENV_VARS provider))
      in dict_update from_env (str_dict (table_get (overrides c) provider)))"

text \<open>
  \<open>UniversalAgentClient.connect\<close> chooses the dict the provider is built with: the
  caller's \<open>provider_config\<close>, or \<open>get_config().get_provider_config(provider)\<close> when that
  is \<open>None\<close>.
\<close>

definition connect_provider_config ::
  "pydict option \<Rightarrow> config \<Rightarrow> (string \<rightharpoonup> string) \<Rightarrow> string \<Rightarrow> pydict" where
  "connect_provider_config provider_config c env provider =
     (case provider_config of
        None \<Rightarrow> get_provider_config c env provider
      | Some d \<Rightarrow> d)"


section \<open>Messages, tools and hooks (types.py)\<close>

text \<open>
  The dataclasses of types.py with the fields the client reads or writes; the constant
  \<open>role\<close> and \<open>type\<close> tags are the constructors, and the optional \<open>name\<close>, \<open>uuid\<close> and
  \<open>total_cost_usd\<close> fields, which the client never sets, are left out.
\<close>

datatype tool_use_block = ToolUseBlock (tu_id: string) (tu_name: string) (tu_input: pyval)

datatype content_block =
    TextBlock string
  | ImageBlock string string
  | ThinkingBlock string "string option"
  | ToolUse tool_use_block
  | ToolResultBlock string pyval bool

datatype finish_reason = FR_STOP | FR_LENGTH | FR_TOOL_USE | FR_CONTENT_FILTER | FR_ERROR

datatype user_content = UserText string | UserBlocks "content_block list"

record assistant_message =
  am_content :: "content_block list"
  am_model :: "string option"
  am_finish_reason :: "finish_reason option"

datatype message =
    UserMessage user_content
  | AssistantMessage assistant_message
  | SystemMessage string
  | ToolMessage (tm_content: string) (tool_call_id: string)

record usage =
  prompt_tokens :: int
  completion_tokens :: int
  total_tokens :: int
  cache_read_tokens :: "int option"
  cache_creation_tokens :: "int option"

record result_message =
  is_error :: bool
  duration_ms :: int
  num_turns :: int
  rm_session_id :: "string option"
  rm_usage :: "usage option"
  rm_result :: "string option"
  rm_finish_reason :: "finish_reason option"

record stream_event =
  event_type :: string
  ev_index :: "int option"
  ev_delta :: "pydict option"

text \<open>\<open>AnyMessage = Message | ResultMessage | StreamEvent\<close>.\<close>

datatype any_message =
    Message message
  | ResultMessage result_message
  | StreamEvent stream_event

fun is_result :: "any_message \<Rightarrow> bool" where
  "is_result (ResultMessage r) = True"
| "is_result m = False"

text \<open>A tool handler call \<open>tool_def.handler(**tool_input)\<close> returns a string, returns
  another value, or raises (\<open>str(e)\<close> and the exception's type name); a keyword-binding
  failure of the call itself is a raise like any other.\<close>

datatype handler_reply =
    ReturnsStr string
  | ReturnsValue pyval
  | HandlerRaises string string

record tool_definition =
  td_name :: string
  td_description :: string
  td_input_schema :: pydict
  td_handler :: "(pyval \<Rightarrow> handler_reply) option"

datatype permission_result =
    PermissionResultAllow (updated_input: "pyval option")
  | PermissionResultDeny (deny_message: string) (interrupt: bool)

datatype hook_event =
    SessionStart | PreToolUse | PostToolUse | PreCompletion | PostCompletion | OnError

text \<open>
  A hook callback gets \<open>(input_data, tool_use_id, context)\<close> and returns a \<open>HookOutput\<close>
  dict. Inside \<open>_execute_hooks\<close> an exception of the hook and the \<open>TimeoutError\<close> of
  \<open>asyncio.wait_for\<close> are both caught and logged, so both are the reply \<open>HookFails\<close>; the
  matcher's \<open>timeout\<close> has no other effect and is not a field here. A hook that returns
  \<open>None\<close> is \<open>HookReturns []\<close>: like the empty dict it is skipped by \<open>if output:\<close>.
\<close>

datatype hook_reply = HookReturns pydict | HookFails

type_synonym hook_callback = "pydict \<Rightarrow> string option \<Rightarrow> pydict \<Rightarrow> hook_reply"

record hook_matcher =
  matcher :: "string option"
  hooks :: "hook_callback list"

text \<open>The fields of \<open>AgentOptions\<close> that the agent loop reads.\<close>

record agent_options =
  opt_system_prompt :: "string option"
  opt_tools :: "tool_definition list"
  opt_can_use_tool :: "(string \<Rightarrow> pyval \<Rightarrow> string \<Rightarrow> permission_result) option"
  opt_hooks :: "(hook_event \<rightharpoonup> hook_matcher list) option"
  opt_max_turns :: "int option"
  opt_stream :: bool

text \<open>\<open>AgentOptions()\<close>: the defaults of the dataclass.\<close>

definition default_options :: agent_options where
  "default_options =
     \<lparr>opt_system_prompt = None, opt_tools = [], opt_can_use_tool = None, opt_hooks = None,
      opt_max_turns = None, opt_stream = True\<rparr>"


section \<open>The client (client.py)\<close>

text \<open>
  What the client calls but does not own: the provider (its \<open>stream\<close> and \<open>complete\<close>, which
  may answer differently at every call, so they get the number of calls made before and the
  history), \<open>json.dumps\<close>, Python's \<open>str()\<close> of a value that is not a string, and the
  wall-clock duration reported for a tool use. Provider calls are taken to return; a provider
  or permission callback that raises ends \<open>receive()\<close> with that exception.
\<close>

record environment =
  provider_stream :: "nat \<Rightarrow> message list \<Rightarrow> any_message list"
  provider_complete :: "nat \<Rightarrow> message list \<Rightarrow> assistant_message"
  json_dumps :: "pyval \<Rightarrow> string"
  str_of :: "pyval \<Rightarrow> string"
  elapsed_ms :: "tool_use_block \<Rightarrow> int"

text \<open>
  The generator stored in \<open>_pending_response\<close>: one of the two loops, not yet started, or a
  generator that has run to its end.
\<close>

datatype pending = StreamWithTools | CompleteWithTools | Exhausted

text \<open>
  \<open>UniversalAgentClient\<close>. \<open>provider_calls\<close> and \<open>handler_calls\<close> are traces of what the
  client did to the outside: how many times it called the provider, and each handler
  invocation with the tool name and the input passed.
\<close>

record client =
  options :: agent_options
  messages :: "message list"
  c_session_id :: string
  connected :: bool
  pending_response :: "pending option"
  provider_calls :: nat
  handler_calls :: "(string \<times> pyval) list"

definition fmt :: "environment \<Rightarrow> pyval \<Rightarrow> string" where
  "fmt env v = (case v of PStr s \<Rightarrow> s | _ \<Rightarrow> str_of env v)"

text \<open>\<open>(x or {}).get\<close>: hook outputs are taken as typed, a dict or \<open>None\<close>.\<close>

definition as_dict :: "pyval \<Rightarrow> pydict" where
  "as_dict v = (case v of PDict d \<Rightarrow> d | _ \<Rightarrow> [])"

subsection \<open>\<open>_execute_hooks\<close>\<close>

text \<open>
  The inner loop over one matcher's hooks. The flag says that a hook asked for an
  immediate stop (\<open>output.get("continue_") is False\<close>), where the Python returns from the
  whole function.
\<close>

fun run_hooks :: "hook_callback list \<Rightarrow> pydict \<Rightarrow> string option \<Rightarrow> pydict \<Rightarrow> pydict \<Rightarrow> pydict \<times> bool" where
  "run_hooks [] input_data tool_use_id ctx combined_output = (combined_output, False)"
| "run_hooks (hook # rest) input_data tool_use_id ctx combined_output =
     (case hook input_data tool_use_id ctx of
        HookFails \<Rightarrow> run_hooks rest input_data tool_use_id ctx combined_output
      | HookReturns output \<Rightarrow>
          (if output \<noteq> [] then
             (let combined = dict_update combined_output output
              in if dict_get output ''continue_'' = PBool False then (combined, True)
                 else run_hooks rest input_data tool_use_id ctx combined)
           else run_hooks rest input_data tool_use_id ctx combined_output))"

fun run_matchers ::
  "hook_matcher list \<Rightarrow> string option \<Rightarrow> pydict \<Rightarrow> string option \<Rightarrow> pydict \<Rightarrow> pydict \<Rightarrow> pydict" where
  "run_matchers [] tool_name input_data tool_use_id ctx combined_output = combined_output"
| "run_matchers (m # rest) tool_name input_data tool_use_id ctx combined_output =
     (if matcher m \<noteq> None \<and> tool_name \<noteq> None \<and> matcher m \<noteq> tool_name then
        run_matchers rest tool_name input_data tool_use_id ctx combined_output
      else
        (case run_hooks (hooks m) input_data tool_use_id ctx combined_output of
           (combined, True) \<Rightarrow> combined
         | (combined, False) \<Rightarrow> run_matchers rest tool_name input_data tool_use_id ctx combined))"

definition opt_str :: "string option \<Rightarrow> pyval" where
  "opt_str s = (case s of None \<Rightarrow> PNone | Some x \<Rightarrow> PStr x)"

definition execute_hooks ::
  "client \<Rightarrow> hook_event \<Rightarrow> pydict \<Rightarrow> string option \<Rightarrow> string option \<Rightarrow> pydict" where
  "execute_hooks c event input_data tool_use_id tool_name =
     (case opt_hooks (options c) of
        None \<Rightarrow> []
      | Some hs \<Rightarrow>
          (case hs event of
             None \<Rightarrow> []
           | Some matchers \<Rightarrow>
               run_matchers matchers tool_name input_data tool_use_id
                 [(''session_id'', PStr (c_session_id c)), (''tool_use_id'', opt_str tool_use_id)]
                 []))"

subsection \<open>\<open>__init__\<close> and \<open>connect\<close>\<close>

text \<open>
  \<open>__init__\<close>, with the session id (\<open>options.session_id\<close> or a fresh uuid) supplied by
  the caller, and \<open>connect\<close>: the system prompt, then the SessionStart hooks, whose
  \<open>additionalContext\<close> becomes a second system message.
\<close>

definition new_client :: "agent_options \<Rightarrow> string \<Rightarrow> client" where
  "new_client opts sid =
     \<lparr>options = opts, messages = [], c_session_id = sid, connected = False,
      pending_response = None, provider_calls = 0, handler_calls = []\<rparr>"

definition connect :: "client \<Rightarrow> client" where
  "connect c =
     (if connected c then c
      else
        (let c1 = (case opt_system_prompt (options c) of
                     None \<Rightarrow> c
                   | Some p \<Rightarrow> (if p \<noteq> [] then c\<lparr>messages := messages c @ [SystemMessage p]\<rparr> else c));
             c2 = c1\<lparr>connected := True\<rparr>;
             hook_output =
               execute_hooks c2 SessionStart
                 [(''session_id'', PStr (c_session_id c2)), (''hook_event_name'', PStr ''SessionStart'')]
                 None None
         in case dict_get hook_output ''hookSpecificOutput'' of
              PDict hook_specific \<Rightarrow>
                (case dict_get hook_specific ''additionalContext'' of
                   PStr additional_context \<Rightarrow>
                     (if additional_context \<noteq> []
                      then c2\<lparr>messages := messages c2 @ [SystemMessage additional_context]\<rparr>
                      else c2)
                 | _ \<Rightarrow> c2)
            | _ \<Rightarrow> c2))"

subsection \<open>Tool execution: \<open>_execute_tools\<close> and \<open>_execute_tools_with_events\<close>\<close>

definition append_message :: "message \<Rightarrow> client \<Rightarrow> client" where
  "append_message m c = c\<lparr>messages := messages c @ [m]\<rparr>"

definition pre_tool_input :: "client \<Rightarrow> tool_use_block \<Rightarrow> pydict" where
  "pre_tool_input c tool_use =
     [(''session_id'', PStr (c_session_id c)), (''hook_event_name'', PStr ''PreToolUse''),
      (''tool_name'', PStr (tu_name tool_use)), (''tool_input'', tu_input tool_use)]"

definition post_tool_input :: "client \<Rightarrow> tool_use_block \<Rightarrow> pyval \<Rightarrow> string \<Rightarrow> pydict" where
  "post_tool_input c tool_use tool_input content =
     [(''session_id'', PStr (c_session_id c)), (''hook_event_name'', PStr ''PostToolUse''),
      (''tool_name'', PStr (tu_name tool_use)), (''tool_input'', tool_input),
      (''tool_response'', PStr content)]"

definition error_input :: "client \<Rightarrow> string \<Rightarrow> string \<Rightarrow> pydict" where
  "error_input c e error_type =
     [(''session_id'', PStr (c_session_id c)), (''hook_event_name'', PStr ''OnError''),
      (''error'', PStr e), (''error_type'', PStr error_type)]"

text \<open>
  The permission callback is the fallback when no hook decided
  (\<open>if self.options.can_use_tool and not permission_decision\<close>): the result is the
  callback's answer when it was consulted. It is called with the tool use's own input.
\<close>

definition consult_can_use_tool :: "client \<Rightarrow> tool_use_block \<Rightarrow> pyval \<Rightarrow> permission_result option" where
  "consult_can_use_tool c tool_use permission_decision =
     (case opt_can_use_tool (options c) of
        None \<Rightarrow> None
      | Some callback \<Rightarrow>
          (if \<not> truthy permission_decision
           then Some (callback (tu_name tool_use) (tu_input tool_use) (c_session_id c))
           else None))"

text \<open>\<open>next((t for t in self.options.tools if t.name == tool_use.name), None)\<close>.\<close>

definition find_tool :: "client \<Rightarrow> string \<Rightarrow> tool_definition option" where
  "find_tool c name = find (\<lambda>t. td_name t = name) (opt_tools (options c))"

definition quote :: string where
  "quote = [CHR 0x27]"

definition hook_note :: "environment \<Rightarrow> pyval \<Rightarrow> string" where
  "hook_note env additional_context =
     [CHR 0x0A, CHR 0x0A] @ ''[Hook note: '' @ fmt env additional_context @ '']''"

text \<open>\<open>content\<close> as the handler's result gives it: a string as it is, anything else through \<open>json.dumps\<close>.\<close>

definition result_content :: "environment \<Rightarrow> handler_reply \<Rightarrow> string" where
  "result_content env reply =
     (case reply of
        ReturnsStr s \<Rightarrow> s
      | ReturnsValue v \<Rightarrow> json_dumps env v
      | HandlerRaises e error_type \<Rightarrow> e)"

text \<open>
  The part of the \<open>try\<close> block after the handler has returned: the PostToolUse hooks,
  then the tool message.
\<close>

definition after_handler ::
  "environment \<Rightarrow> tool_use_block \<Rightarrow> pyval \<Rightarrow> string \<Rightarrow> client \<Rightarrow> bool \<times> client" where
  "after_handler env tool_use tool_input content c =
     (let post_hook_output =
            execute_hooks c PostToolUse (post_tool_input c tool_use tool_input content)
              (Some (tu_id tool_use)) (Some (tu_name tool_use))
      in if dict_get post_hook_output ''continue_'' = PBool False then
           (False, append_message (ToolMessage content (tu_id tool_use)) c)
         else
           (let post_specific =
                  as_dict (py_or (dict_get post_hook_output ''hookSpecificOutput'') (PDict []));
                additional_context = dict_get post_specific ''additionalContext'';
                content' = (if truthy additional_context
                            then content @ hook_note env additional_context else content)
            in (True, append_message (ToolMessage content' (tu_id tool_use)) c)))"

text \<open>
  One iteration of the loop of \<open>_execute_tools\<close>. The flag is \<open>False\<close> where the Python
  executes \<open>return False\<close> and \<open>True\<close> where it goes on to the next tool use.
\<close>

definition execute_tool :: "environment \<Rightarrow> tool_use_block \<Rightarrow> client \<Rightarrow> bool \<times> client" where
  "execute_tool env tool_use c =
     (let pre_hook_output =
            execute_hooks c PreToolUse (pre_tool_input c tool_use)
              (Some (tu_id tool_use)) (Some (tu_name tool_use))
      in if dict_get pre_hook_output ''continue_'' = PBool False then (False, c)
         else
           (let hook_specific = as_dict (py_or (dict_get pre_hook_output ''hookSpecificOutput'') (PDict []));
                permission_decision = dict_get hook_specific ''permissionDecision''
            in if permission_decision = PStr ''deny'' then
                 (let reason = dict_get_default hook_specific ''permissionDecisionReason''
                                 (PStr ''Denied by PreToolUse hook'')
                  in (True, append_message
                              (ToolMessage (''Permission denied: '' @ fmt env reason) (tu_id tool_use)) c))
               else
                 (case consult_can_use_tool c tool_use permission_decision of
                    Some (PermissionResultDeny msg intr) \<Rightarrow>
                      (True, append_message
                               (ToolMessage (''Permission denied: '' @ msg) (tu_id tool_use)) c)
                  | _ \<Rightarrow>
                      (case Option.bind (find_tool c (tu_name tool_use)) td_handler of
                         None \<Rightarrow>
                           (True, append_message
                                    (ToolMessage (''Tool '' @ quote @ tu_name tool_use @ quote
                                                    @ '' not found or has no handler'')
                                       (tu_id tool_use)) c)
                       | Some handler \<Rightarrow>
                           (let tool_input = py_or (dict_get pre_hook_output ''modified_input'')
                                               (tu_input tool_use);
                                c1 = c\<lparr>handler_calls := handler_calls c @ [(tu_name tool_use, tool_input)]\<rparr>
                            in case handler tool_input of
                                 HandlerRaises e error_type \<Rightarrow>
                                   (let on_error = execute_hooks c1 OnError (error_input c1 e error_type)
                                                     (Some (tu_id tool_use)) (Some (tu_name tool_use))
                                    in (True, append_message
                                                (ToolMessage (''Error executing tool: '' @ e)
                                                   (tu_id tool_use)) c1))
                               | reply \<Rightarrow>
                                   after_handler env tool_use tool_input (result_content env reply) c1)))))"

fun execute_tools :: "environment \<Rightarrow> tool_use_block list \<Rightarrow> client \<Rightarrow> bool \<times> client" where
  "execute_tools env [] c = (True, c)"
| "execute_tools env (tool_use # rest) c =
     (case execute_tool env tool_use c of
        (False, c') \<Rightarrow> (False, c')
      | (True, c') \<Rightarrow> execute_tools env rest c')"

text \<open>
  The streaming variant yields \<open>StreamEvent\<close>s around the same steps. Its events carry the
  delta dicts of the source; \<open>output\<close> is cut to 500 characters for the event only.
\<close>

definition tool_event :: "pydict \<Rightarrow> stream_event" where
  "tool_event d = \<lparr>event_type = ''tool_execution_complete'', ev_index = None, ev_delta = Some d\<rparr>"

definition start_event :: "tool_use_block \<Rightarrow> stream_event" where
  "start_event tool_use =
     \<lparr>event_type = ''tool_execution_start'', ev_index = None,
      ev_delta = Some [(''type'', PStr ''tool_execution_start''),
                       (''tool_use_id'', PStr (tu_id tool_use)),
                       (''tool_name'', PStr (tu_name tool_use)),
                       (''tool_input'', tu_input tool_use)]\<rparr>"

definition error_event :: "environment \<Rightarrow> tool_use_block \<Rightarrow> pyval \<Rightarrow> stream_event" where
  "error_event env tool_use err =
     tool_event [(''type'', PStr ''tool_execution_error''),
                 (''tool_use_id'', PStr (tu_id tool_use)),
                 (''tool_name'', PStr (tu_name tool_use)),
                 (''error'', err),
                 (''duration_ms'', PInt (elapsed_ms env tool_use))]"

definition complete_event :: "environment \<Rightarrow> tool_use_block \<Rightarrow> string \<Rightarrow> stream_event" where
  "complete_event env tool_use content =
     tool_event [(''type'', PStr ''tool_execution_complete''),
                 (''tool_use_id'', PStr (tu_id tool_use)),
                 (''tool_name'', PStr (tu_name tool_use)),
                 (''output'', PStr (if length content > 500 then take 500 content else content)),
                 (''duration_ms'', PInt (elapsed_ms env tool_use))]"

definition after_handler_with_events ::
  "environment \<Rightarrow> tool_use_block \<Rightarrow> pyval \<Rightarrow> string \<Rightarrow> client
    \<Rightarrow> stream_event list \<times> bool \<times> client" where
  "after_handler_with_events env tool_use tool_input content c =
     (let post_hook_output =
            execute_hooks c PostToolUse (post_tool_input c tool_use tool_input content)
              (Some (tu_id tool_use)) (Some (tu_name tool_use))
      in if dict_get post_hook_output ''continue_'' = PBool False then
           ([complete_event env tool_use content], False,
            append_message (ToolMessage content (tu_id tool_use)) c)
         else
           (let post_specific =
                  as_dict (py_or (dict_get post_hook_output ''hookSpecificOutput'') (PDict []));
                additional_context = dict_get post_specific ''additionalContext'';
                content' = (if truthy additional_context
                            then content @ hook_note env additional_context else content)
            in ([complete_event env tool_use content'], True,
                append_message (ToolMessage content' (tu_id tool_use)) c)))"

text \<open>
  One iteration of the loop of \<open>_execute_tools_with_events\<close>: the events it yields, the
  flag (\<open>False\<close> where the Python does \<open>yield False; return\<close>) and the client afterwards.
\<close>

definition execute_tool_with_events ::
  "environment \<Rightarrow> tool_use_block \<Rightarrow> client \<Rightarrow> stream_event list \<times> bool \<times> client" where
  "execute_tool_with_events env tool_use c =
     (let pre_hook_output =
            execute_hooks c PreToolUse (pre_tool_input c tool_use)
              (Some (tu_id tool_use)) (Some (tu_name tool_use))
      in if dict_get pre_hook_output ''continue_'' = PBool False then
           (let stop_reason = dict_get_default pre_hook_output ''stopReason''
                                (PStr ''Stopped by PreToolUse hook'')
            in ([start_event tool_use, error_event env tool_use stop_reason], False, c))
         else
           (let hook_specific = as_dict (py_or (dict_get pre_hook_output ''hookSpecificOutput'') (PDict []));
                permission_decision = dict_get hook_specific ''permissionDecision''
            in if permission_decision = PStr ''deny'' then
                 (let reason = dict_get_default hook_specific ''permissionDecisionReason''
                                 (PStr ''Denied by PreToolUse hook'');
                      text = ''Permission denied: '' @ fmt env reason
                  in ([start_event tool_use, error_event env tool_use (PStr text)], True,
                      append_message (ToolMessage text (tu_id tool_use)) c))
               else
                 (case consult_can_use_tool c tool_use permission_decision of
                    Some (PermissionResultDeny msg intr) \<Rightarrow>
                      ([start_event tool_use,
                        error_event env tool_use (PStr (''Permission denied: '' @ msg))], True,
                       append_message (ToolMessage (''Permission denied: '' @ msg) (tu_id tool_use)) c)
                  | _ \<Rightarrow>
                      (case Option.bind (find_tool c (tu_name tool_use)) td_handler of
                         None \<Rightarrow>
                           ([start_event tool_use,
                             error_event env tool_use
                               (PStr (''Tool '' @ quote @ tu_name tool_use @ quote @ '' not found''))],
                            True,
                            append_message
                              (ToolMessage (''Tool '' @ quote @ tu_name tool_use @ quote
                                              @ '' not found or has no handler'')
                                 (tu_id tool_use)) c)
                       | Some handler \<Rightarrow>
                           (let tool_input = py_or (dict_get pre_hook_output ''modified_input'')
                                               (tu_input tool_use);
                                c1 = c\<lparr>handler_calls := handler_calls c @ [(tu_name tool_use, tool_input)]\<rparr>
                            in case handler tool_input of
                                 HandlerRaises e error_type \<Rightarrow>
                                   (let on_error = execute_hooks c1 OnError (error_input c1 e error_type)
                                                     (Some (tu_id tool_use)) (Some (tu_name tool_use))
                                    in ([start_event tool_use, error_event env tool_use (PStr e)], True,
                                        append_message
                                          (ToolMessage (''Error executing tool: '' @ e)
                                             (tu_id tool_use)) c1))
                               | reply \<Rightarrow>
                                   (case after_handler_with_events env tool_use tool_input
                                           (result_content env reply) c1 of
                                      (evs, flag, c2) \<Rightarrow> (start_event tool_use # evs, flag, c2)))))))"

text \<open>
  The generator \<open>_execute_tools_with_events\<close> yields \<open>StreamEvent | bool\<close>: the events of
  each tool use, then one boolean, \<open>False\<close> right after the tool use that stopped, or
  \<open>True\<close> after the last one.
\<close>

fun execute_tools_with_events ::
  "environment \<Rightarrow> tool_use_block list \<Rightarrow> client \<Rightarrow> (stream_event + bool) list \<times> client" where
  "execute_tools_with_events env [] c = ([Inr True], c)"
| "execute_tools_with_events env (tool_use # rest) c =
     (case execute_tool_with_events env tool_use c of
        (evs, False, c') \<Rightarrow> (map Inl evs @ [Inr False], c')
      | (evs, True, c') \<Rightarrow>
          (case execute_tools_with_events env rest c' of
             (items, c'') \<Rightarrow> (map Inl evs @ items, c'')))"

subsection \<open>The agent loops: \<open>_stream_with_tools\<close> and \<open>_complete_with_tools\<close>\<close>

text \<open>\<open>self.options.max_turns or 10\<close>: \<open>None\<close> and \<open>0\<close> are both false.\<close>

definition effective_max_turns :: "int option \<Rightarrow> int" where
  "effective_max_turns mt = (case mt of None \<Rightarrow> 10 | Some n \<Rightarrow> (if n \<noteq> 0 then n else 10))"

text \<open>\<open>[block for block in response.content if isinstance(block, ToolUseBlock)]\<close>.\<close>

fun tool_uses_of :: "content_block list \<Rightarrow> tool_use_block list" where
  "tool_uses_of [] = []"
| "tool_uses_of (ToolUse tu # rest) = tu # tool_uses_of rest"
| "tool_uses_of (b # rest) = tool_uses_of rest"

text \<open>
  Draining one provider stream: every message but a \<open>ResultMessage\<close> is yielded, and
  \<open>response\<close> ends as the last \<open>AssistantMessage\<close> seen, if any.
\<close>

fun drain_stream ::
  "any_message list \<Rightarrow> assistant_message option \<Rightarrow> any_message list \<times> assistant_message option" where
  "drain_stream [] response = ([], response)"
| "drain_stream (ResultMessage r # rest) response = drain_stream rest response"
| "drain_stream (Message (AssistantMessage a) # rest) response =
     (case drain_stream rest (Some a) of
        (yielded, response') \<Rightarrow> (Message (AssistantMessage a) # yielded, response'))"
| "drain_stream (msg # rest) response =
     (case drain_stream rest response of (yielded, response') \<Rightarrow> (msg # yielded, response'))"

text \<open>
  Consuming the tool generator: events are yielded on, a boolean overwrites
  \<open>should_continue\<close>.
\<close>

fun consume_events :: "(stream_event + bool) list \<Rightarrow> bool \<Rightarrow> any_message list \<times> bool" where
  "consume_events [] should_continue = ([], should_continue)"
| "consume_events (Inl ev # rest) should_continue =
     (case consume_events rest should_continue of
        (yielded, flag) \<Rightarrow> (StreamEvent ev # yielded, flag))"
| "consume_events (Inr b # rest) should_continue = consume_events rest b"

definition turn_result :: "client \<Rightarrow> int \<Rightarrow> any_message" where
  "turn_result c turns =
     ResultMessage \<lparr>is_error = False, duration_ms = 0, num_turns = turns,
                    rm_session_id = Some (c_session_id c), rm_usage = None, rm_result = None,
                    rm_finish_reason = None\<rparr>"

text \<open>
  The \<open>while turns < max_turns\<close> loop of \<open>_stream_with_tools\<close>: what it yields, the value
  of \<open>turns\<close> when it is left (by \<open>break\<close> or because the condition fails), and the client.
\<close>

function stream_loop ::
  "environment \<Rightarrow> int \<Rightarrow> int \<Rightarrow> client \<Rightarrow> any_message list \<times> int \<times> client" where
  "stream_loop env max_turns_eff turns c =
     (if turns < max_turns_eff then
        (let turns' = turns + 1;
             stream_out = provider_stream env (provider_calls c) (messages c);
             c0 = c\<lparr>provider_calls := Suc (provider_calls c)\<rparr>
         in case drain_stream stream_out None of
              (forwarded, None) \<Rightarrow> (forwarded, turns', c0)
            | (forwarded, Some response) \<Rightarrow>
                (let tool_uses = tool_uses_of (am_content response)
                 in if tool_uses = [] then (forwarded @ [turn_result c0 turns'], turns', c0)
                    else
                      (case execute_tools_with_events env tool_uses
                              (append_message (AssistantMessage response) c0) of
                         (items, c1) \<Rightarrow>
                           (case consume_events items True of
                              (events, should_continue) \<Rightarrow>
                                (if \<not> should_continue then
                                   (forwarded @ events @ [turn_result c1 turns'], turns', c1)
                                 else
                                   (case stream_loop env max_turns_eff turns' c1 of
                                      (out, turns_end, c2) \<Rightarrow>
                                        (forwarded @ events @ out, turns_end, c2)))))))
      else ([], turns, c))"
  by pat_completeness auto
termination
  by (relation "measure (\<lambda>(env, max_turns_eff, turns, c). nat (max_turns_eff - turns))") auto

declare stream_loop.simps [simp del]

definition stream_with_tools :: "environment \<Rightarrow> client \<Rightarrow> any_message list \<times> client" where
  "stream_with_tools env c =
     (let max_turns_eff = effective_max_turns (opt_max_turns (options c))
      in case stream_loop env max_turns_eff 0 c of
           (out, turns, c') \<Rightarrow>
             (out @ (if turns \<ge> max_turns_eff then [turn_result c' turns] else []), c'))"

function complete_loop ::
  "environment \<Rightarrow> int \<Rightarrow> int \<Rightarrow> client \<Rightarrow> any_message list \<times> int \<times> client" where
  "complete_loop env max_turns_eff turns c =
     (if turns < max_turns_eff then
        (let turns' = turns + 1;
             response = provider_complete env (provider_calls c) (messages c);
             c0 = c\<lparr>provider_calls := Suc (provider_calls c)\<rparr>;
             tool_uses = tool_uses_of (am_content response)
         in if tool_uses = [] then
              ([Message (AssistantMessage response), turn_result c0 turns'], turns', c0)
            else
              (case execute_tools env tool_uses (append_message (AssistantMessage response) c0) of
                 (should_continue, c1) \<Rightarrow>
                   (if \<not> should_continue then
                      ([Message (AssistantMessage response), turn_result c1 turns'], turns', c1)
                    else
                      (case complete_loop env max_turns_eff turns' c1 of
                         (out, turns_end, c2) \<Rightarrow>
                           (Message (AssistantMessage response) # out, turns_end, c2)))))
      else ([], turns, c))"
  by pat_completeness auto
termination
  by (relation "measure (\<lambda>(env, max_turns_eff, turns, c). nat (max_turns_eff - turns))") auto

declare complete_loop.simps [simp del]

definition complete_with_tools :: "environment \<Rightarrow> client \<Rightarrow> any_message list \<times> client" where
  "complete_with_tools env c =
     (let max_turns_eff = effective_max_turns (opt_max_turns (options c))
      in case complete_loop env max_turns_eff 0 c of
           (out, turns, c') \<Rightarrow>
             (out @ (if turns \<ge> max_turns_eff then [turn_result c' turns] else []), c'))"

subsection \<open>\<open>send\<close> and \<open>receive\<close>\<close>

datatype client_error = RuntimeError string

definition send :: "message \<Rightarrow> client \<Rightarrow> client_error + client" where
  "send user_msg c =
     (if \<not> connected c then Inl (RuntimeError ''Not connected. Call connect() first.'')
      else Inr (c\<lparr>messages := messages c @ [user_msg],
                  pending_response :=
                    Some (if opt_stream (options c) then StreamWithTools else CompleteWithTools)\<rparr>))"

text \<open>Everything the pending generator would yield if it were run to its end.\<close>

definition run_pending :: "environment \<Rightarrow> pending \<Rightarrow> client \<Rightarrow> any_message list \<times> client" where
  "run_pending env g c =
     (case g of
        StreamWithTools \<Rightarrow> stream_with_tools env c
      | CompleteWithTools \<Rightarrow> complete_with_tools env c
      | Exhausted \<Rightarrow> ([], c))"

text \<open>
  \<open>receive\<close> yields what the generator yields and returns right after the first
  \<open>ResultMessage\<close>, leaving the rest of the generator unread.
\<close>

fun until_result :: "any_message list \<Rightarrow> any_message list" where
  "until_result [] = []"
| "until_result (m # rest) = (if is_result m then [m] else m # until_result rest)"

text \<open>
  The generators change the client only before their first \<open>ResultMessage\<close> (after it
  they only yield a second one), so the client after \<open>receive\<close> is the client after the
  whole run. \<open>_pending_response\<close> is reset only when a \<open>ResultMessage\<close> came.
\<close>

definition receive :: "environment \<Rightarrow> client \<Rightarrow> client_error + (any_message list \<times> client)" where
  "receive env c =
     (case pending_response c of
        None \<Rightarrow> Inl (RuntimeError ''No pending response. Call send() first.'')
      | Some g \<Rightarrow>
          (case run_pending env g c of
             (out, c') \<Rightarrow>
               Inr (until_result out,
                    c'\<lparr>pending_response :=
                         (if list_ex is_result out then None else Some Exhausted)\<rparr>)))"



section \<open>Provider streams\<close>

text \<open>
  \<open>json.loads\<close> belongs to the standard library and is a parameter of the two stream
  models: \<open>None\<close> stands for \<open>JSONDecodeError\<close>. The vendor's usage objects are taken
  through \<open>parse_usage\<close> already.
\<close>

type_synonym json_loads = "string \<Rightarrow> pyval option"

definition provider_result :: "usage option \<Rightarrow> finish_reason option \<Rightarrow> any_message" where
  "provider_result u fr =
     ResultMessage \<lparr>is_error = False, duration_ms = 0, num_turns = 1, rm_session_id = None,
                    rm_usage = u, rm_result = None, rm_finish_reason = fr\<rparr>"

subsection \<open>OpenAI dialect: \<open>OpenAIProvider.stream\<close> (providers/openai.py)\<close>

record oa_function =
  fn_name :: "string option"
  fn_arguments :: "string option"

record oa_tool_call =
  tc_index :: int
  tc_id :: "string option"
  tc_function :: "oa_function option"

record oa_delta =
  d_content :: "string option"
  d_tool_calls :: "oa_tool_call list option"

record oa_choice =
  ch_delta :: oa_delta
  ch_finish_reason :: "string option"

record oa_chunk =
  ck_choices :: "oa_choice list"
  ck_usage :: "usage option"
  ck_model :: "string option"

text \<open>One entry of the \<open>tool_calls\<close> dict: \<open>{"id": ..., "name": ..., "arguments": ...}\<close>.\<close>

record tool_call_acc =
  acc_id :: string
  acc_name :: string
  acc_arguments :: string

record oa_state =
  content_text :: string
  oa_tool_calls :: "(int \<times> tool_call_acc) list"
  oa_model :: string
  oa_usage :: "usage option"
  oa_finish_reason :: "string option"

definition oa_initial :: oa_state where
  "oa_initial = \<lparr>content_text = [], oa_tool_calls = [], oa_model = [], oa_usage = None,
                  oa_finish_reason = None\<rparr>"

text \<open>A string option is true when it is a string that is not empty.\<close>

definition str_truthy :: "string option \<Rightarrow> bool" where
  "str_truthy s = (case s of None \<Rightarrow> False | Some x \<Rightarrow> x \<noteq> [])"

definition str_or_empty :: "string option \<Rightarrow> string" where
  "str_or_empty s = (case s of None \<Rightarrow> [] | Some x \<Rightarrow> x)"

definition openai_map_finish_reason :: "string option \<Rightarrow> finish_reason option" where
  "openai_map_finish_reason fr =
     (case fr of
        None \<Rightarrow> None
      | Some r \<Rightarrow>
          Some (if r = ''stop'' then FR_STOP
                else if r = ''length'' then FR_LENGTH
                else if r = ''tool_calls'' then FR_TOOL_USE
                else if r = ''content_filter'' then FR_CONTENT_FILTER
                else FR_STOP))"

text \<open>The body of \<open>for tool_call in delta.tool_calls\<close>: the dict afterwards and the event.\<close>

definition oa_tool_call_step ::
  "oa_tool_call \<Rightarrow> (int \<times> tool_call_acc) list \<Rightarrow> stream_event \<times> (int \<times> tool_call_acc) list" where
  "oa_tool_call_step tool_call tcs =
     (let idx = tc_index tool_call;
          tcs1 = (if map_of tcs idx = None
                  then AList.update idx \<lparr>acc_id = str_or_empty (tc_id tool_call), acc_name = [],
                                         acc_arguments = []\<rparr> tcs
                  else tcs);
          tcs2 = (if str_truthy (tc_id tool_call)
                  then AList.map_entry idx (\<lambda>a. a\<lparr>acc_id := str_or_empty (tc_id tool_call)\<rparr>) tcs1
                  else tcs1);
          tcs3 = (case tc_function tool_call of
                    None \<Rightarrow> tcs2
                  | Some f \<Rightarrow>
                      (let t1 = (if str_truthy (fn_name f)
                                 then AList.map_entry idx (\<lambda>a. a\<lparr>acc_name := str_or_empty (fn_name f)\<rparr>) tcs2
                                 else tcs2)
                       in if str_truthy (fn_arguments f)
                          then AList.map_entry idx
                                 (\<lambda>a. a\<lparr>acc_arguments := acc_arguments a @ str_or_empty (fn_arguments f)\<rparr>) t1
                          else t1))
      in (\<lparr>event_type = ''tool_call_delta'', ev_index = Some idx,
           ev_delta = Some [(''type'', PStr ''tool_call''),
                            (''id'', opt_str (tc_id tool_call)),
                            (''name'', opt_str (Option.bind (tc_function tool_call) fn_name)),
                            (''arguments'', opt_str (Option.bind (tc_function tool_call) fn_arguments))]\<rparr>,
          tcs3))"

fun oa_tool_calls_loop ::
  "oa_tool_call list \<Rightarrow> (int \<times> tool_call_acc) list \<Rightarrow> stream_event list \<times> (int \<times> tool_call_acc) list" where
  "oa_tool_calls_loop [] tcs = ([], tcs)"
| "oa_tool_calls_loop (tool_call # rest) tcs =
     (case oa_tool_call_step tool_call tcs of
        (ev, tcs') \<Rightarrow>
          (case oa_tool_calls_loop rest tcs' of (evs, tcs'') \<Rightarrow> (ev # evs, tcs'')))"

text \<open>The body of \<open>async for chunk in stream\<close>.\<close>

definition oa_chunk_step :: "oa_chunk \<Rightarrow> oa_state \<Rightarrow> stream_event list \<times> oa_state" where
  "oa_chunk_step chunk st =
     (case ck_choices chunk of
        [] \<Rightarrow> ([], (case ck_usage chunk of None \<Rightarrow> st | Some u \<Rightarrow> st\<lparr>oa_usage := Some u\<rparr>))
      | choice # others \<Rightarrow>
          (let d = ch_delta choice;
               st1 = (if str_truthy (ck_model chunk)
                      then st\<lparr>oa_model := str_or_empty (ck_model chunk)\<rparr> else st);
               text_part =
                 (if str_truthy (d_content d)
                  then ([\<lparr>event_type = ''content_block_delta'', ev_index = None,
                           ev_delta = Some [(''type'', PStr ''text''),
                                            (''text'', PStr (str_or_empty (d_content d)))]\<rparr>],
                        st1\<lparr>content_text := content_text st1 @ str_or_empty (d_content d)\<rparr>)
                  else ([], st1));
               tool_part =
                 (case d_tool_calls d of
                    None \<Rightarrow> ([], snd text_part)
                  | Some tool_calls \<Rightarrow>
                      (case oa_tool_calls_loop tool_calls (oa_tool_calls (snd text_part)) of
                         (evs, tcs) \<Rightarrow> (evs, (snd text_part)\<lparr>oa_tool_calls := tcs\<rparr>)));
               st3 = (if str_truthy (ch_finish_reason choice)
                      then (snd tool_part)\<lparr>oa_finish_reason := ch_finish_reason choice\<rparr>
                      else snd tool_part)
           in (fst text_part @ fst tool_part, st3)))"

fun oa_chunks :: "oa_chunk list \<Rightarrow> oa_state \<Rightarrow> stream_event list \<times> oa_state" where
  "oa_chunks [] st = ([], st)"
| "oa_chunks (chunk # rest) st =
     (case oa_chunk_step chunk st of
        (evs, st') \<Rightarrow> (case oa_chunks rest st' of (evs', st'') \<Rightarrow> (evs @ evs', st'')))"

text \<open>\<open>json.loads(tc["arguments"]) if tc["arguments"] else {}\<close>, and \<open>{}\<close> on \<open>JSONDecodeError\<close>.\<close>

definition oa_parse_arguments :: "json_loads \<Rightarrow> string \<Rightarrow> pyval" where
  "oa_parse_arguments loads args =
     (if args \<noteq> [] then (case loads args of None \<Rightarrow> PDict [] | Some v \<Rightarrow> v) else PDict [])"

definition oa_content_blocks :: "json_loads \<Rightarrow> oa_state \<Rightarrow> content_block list" where
  "oa_content_blocks loads st =
     (if content_text st \<noteq> [] then [TextBlock (content_text st)] else [])
     @ map (\<lambda>(i, tc). ToolUse (ToolUseBlock (acc_id tc) (acc_name tc)
                                  (oa_parse_arguments loads (acc_arguments tc))))
           (sort_key fst (oa_tool_calls st))"

text \<open>Everything \<open>stream\<close> yields for the chunks the vendor sends.\<close>

definition openai_stream :: "json_loads \<Rightarrow> oa_chunk list \<Rightarrow> any_message list" where
  "openai_stream loads chunks =
     (case oa_chunks chunks oa_initial of
        (evs, st) \<Rightarrow>
          map StreamEvent evs
          @ [Message (AssistantMessage
                        \<lparr>am_content = oa_content_blocks loads st, am_model = Some (oa_model st),
                         am_finish_reason = openai_map_finish_reason (oa_finish_reason st)\<rparr>),
             provider_result (oa_usage st) (openai_map_finish_reason (oa_finish_reason st))])"

subsection \<open>Anthropic dialect: \<open>ClaudeProvider.stream\<close> (providers/claude.py)\<close>




record cl_state =
  content_blocks :: "content_block list"
  current_text :: string
  current_tool_use :: "(string \<times> string \<times> string) option"
  current_thinking :: string
  current_thinking_signature :: string
  cl_model :: string
  cl_usage :: "usage option"
  stop_reason :: "string option"









section \<open>Reading a stream back\<close>

text \<open>
  What a consumer of one provider turn sees, used to state that the stream and the final
  message agree: the stream events among the messages, the text fragments they carry, and
  the final message's blocks.
\<close>

fun stream_events_of :: "any_message list \<Rightarrow> stream_event list" where
  "stream_events_of [] = []"
| "stream_events_of (StreamEvent ev # rest) = ev # stream_events_of rest"
| "stream_events_of (m # rest) = stream_events_of rest"


fun block_texts :: "content_block list \<Rightarrow> string list" where
  "block_texts [] = []"
| "block_texts (TextBlock t # rest) = t # block_texts rest"
| "block_texts (b # rest) = block_texts rest"

definition delta_type :: "stream_event \<Rightarrow> pyval" where
  "delta_type ev = (case ev_delta ev of None \<Rightarrow> PNone | Some d \<Rightarrow> dict_get d ''type'')"

definition delta_field :: "stream_event \<Rightarrow> string \<Rightarrow> string" where
  "delta_field ev k =
     (case ev_delta ev of
        None \<Rightarrow> []
      | Some d \<Rightarrow> (case dict_get d k of PStr s \<Rightarrow> s | _ \<Rightarrow> []))"

text \<open>
  The text payloads: the \<open>text\<close> of every \<open>content_block_delta\<close> event whose delta type is
  the given one (\<open>text_delta\<close> as the Anthropic provider writes it, \<open>text\<close> as the OpenAI
  provider does).
\<close>

definition text_payloads :: "string \<Rightarrow> stream_event list \<Rightarrow> string list" where
  "text_payloads ty evs =
     map (\<lambda>ev. delta_field ev ''text'')
       (filter (\<lambda>ev. event_type ev = ''content_block_delta'' \<and> delta_type ev = PStr ty) evs)"


text \<open>
  OpenAI dialect: the indices of the tool calls and the argument string of each, read off
  the \<open>tool_call_delta\<close> events.
\<close>

definition tool_call_index_list :: "stream_event list \<Rightarrow> int list" where
  "tool_call_index_list evs =
     concat (map (\<lambda>ev. case ev_index ev of None \<Rightarrow> [] | Some i \<Rightarrow> [i])
               (filter (\<lambda>ev. event_type ev = ''tool_call_delta'') evs))"


definition tool_call_arguments :: "int \<Rightarrow> stream_event list \<Rightarrow> string" where
  "tool_call_arguments i evs =
     concat (map (\<lambda>ev. delta_field ev ''arguments'')
               (filter (\<lambda>ev. event_type ev = ''tool_call_delta'' \<and> ev_index ev = Some i) evs))"




text \<open>The claim read as a predicate on a yielded sequence: one result message, at the end.\<close>

definition single_terminal :: "any_message list \<Rightarrow> bool" where
  "single_terminal out \<longleftrightarrow> length (filter is_result out) = 1 \<and> out \<noteq> [] \<and> is_result (last out)"

fun is_assistant :: "any_message \<Rightarrow> bool" where
  "is_assistant (Message (AssistantMessage a)) = True"
| "is_assistant m = False"

text \<open>\<open>AgentOptions(max_turns=x)\<close> on a client.\<close>

definition set_max_turns :: "int option \<Rightarrow> client \<Rightarrow> client" where
  "set_max_turns x c = c\<lparr>options := (options c)\<lparr>opt_max_turns := x\<rparr>\<rparr>"

text \<open>
  The permission decision the tool loop reads from a merged hook output:
  \<open>(out.get("hookSpecificOutput") or {}).get("permissionDecision")\<close>.
\<close>

definition permission_decision_of :: "pydict \<Rightarrow> pyval" where
  "permission_decision_of out =
     dict_get (as_dict (py_or (dict_get out ''hookSpecificOutput'') (PDict []))) ''permissionDecision''"

text \<open>
  The hooks that fire for an event, in order: those of every matcher that is not skipped.
\<close>

definition matcher_fires :: "string option \<Rightarrow> hook_matcher \<Rightarrow> bool" where
  "matcher_fires tool_name m \<longleftrightarrow> \<not> (matcher m \<noteq> None \<and> tool_name \<noteq> None \<and> matcher m \<noteq> tool_name)"

definition firing_hooks :: "hook_matcher list \<Rightarrow> string option \<Rightarrow> hook_callback list" where
  "firing_hooks matchers tool_name = concat (map hooks (filter (matcher_fires tool_name) matchers))"

text \<open>
  The outputs that are merged: those of the hooks that return a non-empty dict, up to and
  including the first that has \<open>continue_\<close> set to \<open>False\<close>.
\<close>

fun merged_outputs :: "hook_reply list \<Rightarrow> pydict list" where
  "merged_outputs [] = []"
| "merged_outputs (HookFails # rest) = merged_outputs rest"
| "merged_outputs (HookReturns output # rest) =
     (if output = [] then merged_outputs rest
      else if dict_get output ''continue_'' = PBool False then [output]
      else output # merged_outputs rest)"

text \<open>The last of a list of dicts that has the key.\<close>

definition last_with_key :: "string \<Rightarrow> pydict list \<Rightarrow> pydict option" where
  "last_with_key k outs = find (\<lambda>d. map_of d k \<noteq> None) (rev outs)"

text \<open>Whether a list of hook replies contains one that stops the pipeline.\<close>

definition stops :: "hook_reply list \<Rightarrow> bool" where
  "stops replies \<longleftrightarrow>
     list_ex (\<lambda>r. case r of HookFails \<Rightarrow> False
                   | HookReturns output \<Rightarrow> output \<noteq> [] \<and> dict_get output ''continue_'' = PBool False)
       replies"


text \<open>
  Fixtures for concrete runs: a provider that answers every call with the same stream and
  the same completion, a client that has sent one user message, and the \<open>add\<close> tool of
  the specification's scenarios (its handler answers \<open>5\<close>).
\<close>

definition fixed_provider :: "any_message list \<Rightarrow> assistant_message \<Rightarrow> environment" where
  "fixed_provider stream_out completion =
     \<lparr>provider_stream = (\<lambda>n h. stream_out), provider_complete = (\<lambda>n h. completion),
      json_dumps = (\<lambda>v. ''null''), str_of = (\<lambda>v. ''None''), elapsed_ms = (\<lambda>tu. 0)\<rparr>"

definition asked :: "agent_options \<Rightarrow> client" where
  "asked opts =
     (connect (new_client opts ''s1''))
       \<lparr>messages := [UserMessage (UserText ''hello'')],
        pending_response := Some (if opt_stream opts then StreamWithTools else CompleteWithTools)\<rparr>"

definition add_tool :: tool_definition where
  "add_tool = \<lparr>td_name = ''add'', td_description = ''Add two numbers'', td_input_schema = [],
               td_handler = Some (\<lambda>inp. ReturnsStr ''5'')\<rparr>"

definition add_call :: tool_use_block where
  "add_call = ToolUseBlock ''t1'' ''add'' (PDict [(''a'', PInt 2), (''b'', PInt 3)])"

definition says :: "content_block list \<Rightarrow> assistant_message" where
  "says blocks = \<lparr>am_content = blocks, am_model = Some ''m'', am_finish_reason = None\<rparr>"


text \<open>The arguments accumulated so far for a tool-call index, empty when the index is new.\<close>

definition args_of :: "(int \<times> tool_call_acc) list \<Rightarrow> int \<Rightarrow> string" where
  "args_of tcs i = (case map_of tcs i of None \<Rightarrow> [] | Some a \<Rightarrow> acc_arguments a)"

text \<open>
  The claim about event types read as a predicate on one event: a canonical event type,
  and for a \<open>content_block_delta\<close> a canonical delta type.
\<close>

definition canonical_event :: "stream_event \<Rightarrow> bool" where
  "canonical_event ev =
     (if event_type ev = ''content_block_delta''
      then delta_type ev \<in> {PStr ''text_delta'', PStr ''input_json_delta'',
                              PStr ''thinking_delta'', PStr ''signature_delta''}
      else event_type ev \<in> {''content_block_start'', ''content_block_stop''})"

text \<open>What the OpenAI provider's events are: a text fragment, or a tool-call fragment.\<close>

definition openai_event :: "stream_event \<Rightarrow> bool" where
  "openai_event ev =
     (if event_type ev = ''content_block_delta''
      then ev_index ev = None \<and> delta_field ev ''text'' \<noteq> []
      else event_type ev = ''tool_call_delta'' \<and> ev_index ev \<noteq> None
           \<and> delta_type ev = PStr ''tool_call'')"











section \<open>Session cleanup\<close>

lemma cleanup_session_absent:
  "sessions m sid = None \<Longrightarrow> cleanup_session sid m = m"
  by (simp add: cleanup_session_def)

lemma cleanup_session_removes:
  "sessions (cleanup_session sid m) sid = None"
  by (cases "sessions m sid"; cases "the_container_manager m")
     (simp_all add: cleanup_session_def)

lemma cleanup_session_again:
  "cleanup_session sid (cleanup_session sid m) = cleanup_session sid m"
  by (rule cleanup_session_absent) (rule cleanup_session_removes)

lemma cleanup_session_repeated:
  "(cleanup_session sid ^^ n) (cleanup_session sid m) = cleanup_session sid m"
  by (induction n) (simp_all add: cleanup_session_again)

text \<open>
  Claim C8, as it holds on the code. When a container manager has been set, \<open>cleanup_session\<close>
  of a known session id removes that session and no other, calls \<open>stop_container\<close> exactly
  once, on the session's own container handle, and any number of further
  \<open>cleanup_session\<close> calls with the same id change nothing (no further stop).
\<close>

theorem cleanup_session_stops_once:
  assumes "sessions m sid = Some s" and "the_container_manager m = Some cm"
  shows "sessions (cleanup_session sid m) = (sessions m)(sid := None)
       \<and> stop_calls (cleanup_session sid m) = stop_calls m @ [container_info s]
       \<and> (cleanup_session sid ^^ n) (cleanup_session sid m) = cleanup_session sid m"
  using assms by (simp add: cleanup_session_repeated) (simp add: cleanup_session_def)

theorem cleanup_session_stops_once_witness:
  "sessions (cleanup_session ''sess-1''
       (set_container_manager \<lparr>stop_container_raises = (\<lambda>info. False)\<rparr>
          (snd (create_session ''sess-1'' ''agent-1'' 0 ''key'' None ''default''
                  [(''container_id'', PStr ''c1'')] new_session_manager)))) ''sess-1'' = None
   \<and> stop_calls (cleanup_session ''sess-1''
       (set_container_manager \<lparr>stop_container_raises = (\<lambda>info. False)\<rparr>
          (snd (create_session ''sess-1'' ''agent-1'' 0 ''key'' None ''default''
                  [(''container_id'', PStr ''c1'')] new_session_manager))))
       = [[(''container_id'', PStr ''c1'')]]
   \<and> stop_calls ((cleanup_session ''sess-1'' ^^ 3) (cleanup_session ''sess-1''
       (set_container_manager \<lparr>stop_container_raises = (\<lambda>info. False)\<rparr>
          (snd (create_session ''sess-1'' ''agent-1'' 0 ''key'' None ''default''
                  [(''container_id'', PStr ''c1'')] new_session_manager)))))
       = [[(''container_id'', PStr ''c1'')]]"
  using cleanup_session_stops_once
    [of "set_container_manager \<lparr>stop_container_raises = (\<lambda>info. False)\<rparr>
          (snd (create_session ''sess-1'' ''agent-1'' 0 ''key'' None ''default''
                  [(''container_id'', PStr ''c1'')] new_session_manager))"
        "''sess-1''"
        "fst (create_session ''sess-1'' ''agent-1'' 0 ''key'' None ''default''
                  [(''container_id'', PStr ''c1'')] new_session_manager)"
        "\<lparr>stop_container_raises = (\<lambda>info. False)\<rparr>" 3]
  by (simp add: set_container_manager_def create_session_def new_session_manager_def Let_def)

text \<open>
  Claim C8 as stated fails for a manager on which \<open>set_container_manager\<close> was never
  called: the session created below is removed by \<open>cleanup_session\<close>, and
  \<open>stop_container\<close> is not called at all.
\<close>

theorem cleanup_session_without_manager_counterexample:
  "sessions (snd (create_session ''sess-1'' ''agent-1'' 0 ''key'' None ''default''
                  [(''container_id'', PStr ''c1'')] new_session_manager)) ''sess-1''
     = Some (fst (create_session ''sess-1'' ''agent-1'' 0 ''key'' None ''default''
                  [(''container_id'', PStr ''c1'')] new_session_manager))
   \<and> sessions (cleanup_session ''sess-1''
        (snd (create_session ''sess-1'' ''agent-1'' 0 ''key'' None ''default''
                  [(''container_id'', PStr ''c1'')] new_session_manager))) ''sess-1'' = None
   \<and> stop_calls (cleanup_session ''sess-1''
        (snd (create_session ''sess-1'' ''agent-1'' 0 ''key'' None ''default''
                  [(''container_id'', PStr ''c1'')] new_session_manager))) = []"
  by (simp add: cleanup_session_def create_session_def new_session_manager_def Let_def)


section \<open>Azure \<open>api_version\<close>\<close>

text \<open>
  Claim C9 at a concrete configuration. A provider built from a dict with \<open>api_key\<close> and
  \<open>base_url\<close> but no \<open>api_version\<close> takes \<open>2024-02-15-preview\<close>, whether the variable
  \<open>AZURE_OPENAI_API_VERSION\<close> is set or not: \<open>_get_client\<close> does not read it. The dict that
  \<open>connect\<close> builds through \<open>Config.get_provider_config\<close> when the caller gives none does
  what the claim says: the variable's value, else \<open>2024-02-01\<close>.
\<close>

theorem azure_api_version_default_differs:
  "azure_get_client [(''api_key'', PStr ''k''), (''base_url'', PStr ''https://example.openai.azure.com'')]
       [''AZURE_OPENAI_API_VERSION'' \<mapsto> ''2023-05-15'']
     = Inr \<lparr>kw_api_key = PStr ''k'', kw_azure_endpoint = PStr ''https://example.openai.azure.com'',
            kw_api_version = PStr ''2024-02-15-preview'', kw_azure_ad_token = None\<rparr>
   \<and> azure_get_client [(''api_key'', PStr ''k''), (''base_url'', PStr ''https://example.openai.azure.com'')]
       Map.empty
     = Inr \<lparr>kw_api_key = PStr ''k'', kw_azure_endpoint = PStr ''https://example.openai.azure.com'',
            kw_api_version = PStr ''2024-02-15-preview'', kw_azure_ad_token = None\<rparr>
   \<and> dict_get (connect_provider_config None \<lparr>overrides = [], secret_fetcher = None\<rparr> Map.empty
                 ''azure_openai'') ''api_version'' = PStr ''2024-02-01''
   \<and> dict_get (connect_provider_config None \<lparr>overrides = [], secret_fetcher = None\<rparr>
                 [''AZURE_OPENAI_API_VERSION'' \<mapsto> ''2023-05-15''] ''azure_openai'') ''api_version''
       = PStr ''2023-05-15''"
  by (simp add: azure_get_client_def py_or_def dict_get_def dict_get_default_def environ_get_def
        connect_provider_config_def get_provider_config_def config_get_value_def table_get_def
        PROVIDER_ENV_VARS_def DEFAULTS_def dict_update_def dict_set_def str_dict_def Let_def)


section \<open>Hook pipeline\<close>

lemma dict_update_merge: "dict_update d e = AList.merge d e"
  by (induction e) (simp_all add: dict_update_def AList.merge_def dict_set_def)

lemma map_of_dict_update: "map_of (dict_update d e) = map_of d ++ map_of e"
  by (simp add: dict_update_merge merge_conv')

lemma merged_outputs_append:
  "merged_outputs (a @ b) = (if stops a then merged_outputs a else merged_outputs a @ merged_outputs b)"
  by (induction a rule: merged_outputs.induct) (auto simp: stops_def)

lemma run_hooks_fold:
  "run_hooks hs inp t ctx acc =
     (foldl dict_update acc (merged_outputs (map (\<lambda>h. h inp t ctx) hs)),
      stops (map (\<lambda>h. h inp t ctx) hs))"
  by (induction hs arbitrary: acc) (auto simp: stops_def Let_def split: hook_reply.splits)

lemma run_matchers_fold:
  "run_matchers ms tn inp t ctx acc =
     foldl dict_update acc (merged_outputs (map (\<lambda>h. h inp t ctx) (firing_hooks ms tn)))"
proof (induction ms arbitrary: acc)
  case Nil
  then show ?case by (simp add: firing_hooks_def)
next
  case (Cons m ms)
  show ?case
  proof (cases "matcher_fires tn m")
    case False
    then show ?thesis using Cons[of acc] by (simp add: firing_hooks_def matcher_fires_def)
  next
    case True
    then have fire: "firing_hooks (m # ms) tn = hooks m @ firing_hooks ms tn"
      by (simp add: firing_hooks_def)
    from True have no_skip: "\<not> (matcher m \<noteq> None \<and> tn \<noteq> None \<and> matcher m \<noteq> tn)"
      by (simp add: matcher_fires_def)
    show ?thesis
      using no_skip
      by (simp only: run_matchers.simps fire map_append merged_outputs_append run_hooks_fold if_False)
         (simp add: Cons)
  qed
qed

lemma last_with_key_snoc:
  "last_with_key k (outs @ [d]) = (if map_of d k \<noteq> None then Some d else last_with_key k outs)"
  by (simp add: last_with_key_def)

lemma map_of_fold_last:
  "map_of (foldl dict_update acc outs) k =
     (case last_with_key k outs of None \<Rightarrow> map_of acc k | Some d \<Rightarrow> map_of d k)"
proof (induction outs rule: rev_induct)
  case Nil
  then show ?case by (simp add: last_with_key_def)
next
  case (snoc d outs)
  then show ?case
    by (auto simp: last_with_key_snoc map_of_dict_update map_add_def split: option.splits)
qed

lemma dict_get_fold_last:
  "dict_get (foldl dict_update [] outs) k =
     (case last_with_key k outs of None \<Rightarrow> PNone | Some d \<Rightarrow> dict_get d k)"
  by (simp add: dict_get_def map_of_fold_last split: option.splits)

text \<open>
  Claim C4, as it holds on the code. The merged output of an event is the left-to-right fold
  of \<open>dict.update\<close> over the outputs of the hooks that fire (matchers in order, each
  matcher's hooks in order, failed hooks and empty outputs left out, nothing after the first
  output whose \<open>continue_\<close> is \<open>False\<close>). The fold replaces whole top-level keys, so the
  permission decision of the merged output is the one of the last merged output that has a
  \<open>hookSpecificOutput\<close> key, whatever earlier hooks decided.
\<close>

theorem hook_outputs_merge_last_wins:
  assumes "opt_hooks (options c) = Some hs" and "hs event = Some matchers"
  shows "execute_hooks c event inp t tn =
           foldl dict_update []
             (merged_outputs
                (map (\<lambda>h. h inp t [(''session_id'', PStr (c_session_id c)), (''tool_use_id'', opt_str t)])
                     (firing_hooks matchers tn)))
       \<and> permission_decision_of (execute_hooks c event inp t tn) =
           (case last_with_key ''hookSpecificOutput''
                   (merged_outputs
                      (map (\<lambda>h. h inp t [(''session_id'', PStr (c_session_id c)), (''tool_use_id'', opt_str t)])
                           (firing_hooks matchers tn))) of
              None \<Rightarrow> PNone
            | Some d \<Rightarrow> permission_decision_of d)"
proof -
  have eq: "execute_hooks c event inp t tn =
           foldl dict_update []
             (merged_outputs
                (map (\<lambda>h. h inp t [(''session_id'', PStr (c_session_id c)), (''tool_use_id'', opt_str t)])
                     (firing_hooks matchers tn)))"
    using assms by (simp add: execute_hooks_def run_matchers_fold)
  have pd: "permission_decision_of (foldl dict_update [] outs) =
            (case last_with_key ''hookSpecificOutput'' outs of
               None \<Rightarrow> PNone | Some d \<Rightarrow> permission_decision_of d)" for outs
  proof (cases "last_with_key ''hookSpecificOutput'' outs")
    case None
    then have "dict_get (foldl dict_update [] outs) ''hookSpecificOutput'' = PNone"
      by (simp add: dict_get_fold_last)
    then show ?thesis
      using None by (simp add: permission_decision_of_def py_or_def as_dict_def dict_get_def)
  next
    case (Some d)
    then have "dict_get (foldl dict_update [] outs) ''hookSpecificOutput''
                 = dict_get d ''hookSpecificOutput''"
      by (simp add: dict_get_fold_last)
    then show ?thesis
      using Some by (simp add: permission_decision_of_def)
  qed
  show ?thesis
    unfolding eq by (simp add: pd)
qed

theorem hook_outputs_merge_last_wins_witness:
  "permission_decision_of
     (execute_hooks
        (connect (new_client
           (default_options\<lparr>opt_hooks :=
              Some [PreToolUse \<mapsto>
                 [\<lparr>matcher = None,
                   hooks = [\<lambda>i t ctx. HookReturns [(''hookSpecificOutput'',
                                PDict [(''permissionDecision'', PStr ''allow'')])],
                            \<lambda>i t ctx. HookReturns [(''hookSpecificOutput'',
                                PDict [(''permissionDecision'', PStr ''deny'')])],
                            \<lambda>i t ctx. HookReturns [(''systemMessage'', PStr ''checked'')]]\<rparr>]]\<rparr>)
           ''s1''))
        PreToolUse [] (Some ''t1'') (Some ''write''))
   = PStr ''deny''"
  using hook_outputs_merge_last_wins
    [of "connect (new_client
           (default_options\<lparr>opt_hooks :=
              Some [PreToolUse \<mapsto>
                 [\<lparr>matcher = None,
                   hooks = [\<lambda>i t ctx. HookReturns [(''hookSpecificOutput'',
                                PDict [(''permissionDecision'', PStr ''allow'')])],
                            \<lambda>i t ctx. HookReturns [(''hookSpecificOutput'',
                                PDict [(''permissionDecision'', PStr ''deny'')])],
                            \<lambda>i t ctx. HookReturns [(''systemMessage'', PStr ''checked'')]]\<rparr>]]\<rparr>)
           ''s1'')"
        "[PreToolUse \<mapsto>
                 [\<lparr>matcher = None,
                   hooks = [\<lambda>i t ctx. HookReturns [(''hookSpecificOutput'',
                                PDict [(''permissionDecision'', PStr ''allow'')])],
                            \<lambda>i t ctx. HookReturns [(''hookSpecificOutput'',
                                PDict [(''permissionDecision'', PStr ''deny'')])],
                            \<lambda>i t ctx. HookReturns [(''systemMessage'', PStr ''checked'')]]\<rparr>]]"
        PreToolUse
        "[\<lparr>matcher = None,
                   hooks = [\<lambda>i t ctx. HookReturns [(''hookSpecificOutput'',
                                PDict [(''permissionDecision'', PStr ''allow'')])],
                            \<lambda>i t ctx. HookReturns [(''hookSpecificOutput'',
                                PDict [(''permissionDecision'', PStr ''deny'')])],
                            \<lambda>i t ctx. HookReturns [(''systemMessage'', PStr ''checked'')]]\<rparr>]"
        "[]" "Some ''t1''" "Some ''write''"]
  by (simp add: connect_def new_client_def default_options_def execute_hooks_def Let_def
        firing_hooks_def matcher_fires_def last_with_key_def dict_get_def
        permission_decision_of_def py_or_def as_dict_def)

text \<open>
  Claim C4 as stated fails: a hook that denies, followed by a hook that allows, gives the
  merged decision \<open>allow\<close>.
\<close>

theorem later_allow_overrides_deny_counterexample:
  "permission_decision_of
     (execute_hooks
        (connect (new_client
           (default_options\<lparr>opt_hooks :=
              Some [PreToolUse \<mapsto>
                 [\<lparr>matcher = None,
                   hooks = [\<lambda>i t ctx. HookReturns [(''hookSpecificOutput'',
                                PDict [(''permissionDecision'', PStr ''deny'')])],
                            \<lambda>i t ctx. HookReturns [(''hookSpecificOutput'',
                                PDict [(''permissionDecision'', PStr ''allow'')])]]\<rparr>]]\<rparr>)
           ''s1''))
        PreToolUse [] (Some ''t1'') (Some ''write''))
   = PStr ''allow''"
  by (simp add: connect_def new_client_def default_options_def execute_hooks_def Let_def
        dict_update_def dict_set_def dict_get_def
        permission_decision_of_def py_or_def as_dict_def)


section \<open>Tool execution\<close>

lemma after_handler_eq:
  "after_handler env tu ti body c = snd (after_handler_with_events env tu ti body c)"
  by (simp add: after_handler_def after_handler_with_events_def Let_def)

lemma execute_tool_eq:
  "execute_tool env tu c = snd (execute_tool_with_events env tu c)"
  unfolding execute_tool_def execute_tool_with_events_def after_handler_eq
  by (simp add: Let_def split: option.splits permission_result.splits handler_reply.splits prod.splits)

lemma after_handler_with_events_shape:
  "after_handler_with_events env tu ti body c = (evs, flag, c') \<Longrightarrow>
     \<exists>body'. c' = append_message (ToolMessage body' (tu_id tu)) c"
  by (auto simp: after_handler_with_events_def Let_def split: if_splits)

lemma execute_tool_with_events_frame:
  "execute_tool_with_events env tu c = (evs, flag, c') \<Longrightarrow>
     options c' = options c \<and> provider_calls c' = provider_calls c
     \<and> c_session_id c' = c_session_id c \<and> connected c' = connected c
     \<and> pending_response c' = pending_response c"
  unfolding execute_tool_with_events_def
  by (auto simp: Let_def append_message_def split: if_splits option.splits permission_result.splits handler_reply.splits prod.splits dest!: after_handler_with_events_shape)


lemma consume_events_items:
  "consume_events (map Inl evs @ items) b =
     (map StreamEvent evs @ fst (consume_events items b), snd (consume_events items b))"
  by (induction evs) (simp_all split: prod.splits)

lemma execute_tools_eq:
  "execute_tools env tus c =
     (snd (consume_events (fst (execute_tools_with_events env tus c)) b),
      snd (execute_tools_with_events env tus c))"
proof (induction tus arbitrary: c b)
  case Nil
  then show ?case by simp
next
  case (Cons tu tus)
  obtain evs flag c' where step: "execute_tool_with_events env tu c = (evs, flag, c')"
    by (cases "execute_tool_with_events env tu c") auto
  show ?case
    using step Cons[of c' b]
    by (cases flag) (simp_all add: execute_tool_eq consume_events_items split: prod.splits)
qed

lemma execute_tools_with_events_frame:
  "execute_tools_with_events env tus c = (items, c') \<Longrightarrow>
     options c' = options c \<and> provider_calls c' = provider_calls c
     \<and> c_session_id c' = c_session_id c \<and> connected c' = connected c
     \<and> pending_response c' = pending_response c"
proof (induction tus arbitrary: c items c')
  case Nil
  then show ?case by simp
next
  case (Cons tu tus)
  obtain evs flag c1 where step: "execute_tool_with_events env tu c = (evs, flag, c1)"
    by (cases "execute_tool_with_events env tu c") auto
  note fr = execute_tool_with_events_frame[OF step]
  show ?case
  proof (cases flag)
    case False
    with Cons.prems step fr show ?thesis by simp
  next
    case True
    obtain items' c2 where rest: "execute_tools_with_events env tus c1 = (items', c2)"
      by (cases "execute_tools_with_events env tus c1") auto
    from Cons.prems step True rest have "c' = c2" by simp
    with Cons.IH[OF rest] fr show ?thesis by simp
  qed
qed





text \<open>
  Claim C5 at a concrete input. The permission callback allows the call and carries an
  \<open>updated_input\<close>; both variants invoke the handler with the input the model supplied.
\<close>

theorem can_use_tool_updated_input_ignored:
  "handler_calls (snd (execute_tools
          \<lparr>provider_stream = (\<lambda>n h. []), provider_complete = (\<lambda>n h. \<lparr>am_content = [], am_model = None, am_finish_reason = None\<rparr>),
           json_dumps = (\<lambda>v. ''null''), str_of = (\<lambda>v. ''None''), elapsed_ms = (\<lambda>tu. 0)\<rparr>
          [ToolUseBlock ''t1'' ''write_file'' (PDict [(''path'', PStr ''/home/u/notes.txt'')])]
          (connect (new_client
             (default_options\<lparr>
                opt_tools := [\<lparr>td_name = ''write_file'', td_description = ''Write'', td_input_schema = [],
                               td_handler = Some (\<lambda>inp. ReturnsStr ''ok'')\<rparr>],
                opt_can_use_tool := Some (\<lambda>name inp sid.
                   PermissionResultAllow (Some (PDict [(''path'', PStr ''./safe_output/notes.txt'')])))\<rparr>)
             ''s1''))))
     = [(''write_file'', PDict [(''path'', PStr ''/home/u/notes.txt'')])]
   \<and> handler_calls (snd (execute_tools_with_events
          \<lparr>provider_stream = (\<lambda>n h. []), provider_complete = (\<lambda>n h. \<lparr>am_content = [], am_model = None, am_finish_reason = None\<rparr>),
           json_dumps = (\<lambda>v. ''null''), str_of = (\<lambda>v. ''None''), elapsed_ms = (\<lambda>tu. 0)\<rparr>
          [ToolUseBlock ''t1'' ''write_file'' (PDict [(''path'', PStr ''/home/u/notes.txt'')])]
          (connect (new_client
             (default_options\<lparr>
                opt_tools := [\<lparr>td_name = ''write_file'', td_description = ''Write'', td_input_schema = [],
                               td_handler = Some (\<lambda>inp. ReturnsStr ''ok'')\<rparr>],
                opt_can_use_tool := Some (\<lambda>name inp sid.
                   PermissionResultAllow (Some (PDict [(''path'', PStr ''./safe_output/notes.txt'')])))\<rparr>)
             ''s1''))))
     = [(''write_file'', PDict [(''path'', PStr ''/home/u/notes.txt'')])]"
  by (simp add: connect_def new_client_def default_options_def execute_hooks_def Let_def
        execute_tool_def execute_tool_with_events_def after_handler_def after_handler_with_events_def
        append_message_def consult_can_use_tool_def
        find_tool_def result_content_def dict_get_def py_or_def as_dict_def)

text \<open>
  The other half of claim C5 holds: with no hook decision, a \<open>Deny\<close> from the callback
  appends the "Permission denied" stub and leaves the handler trace as it was.
\<close>

lemma can_use_tool_deny_appends_stub:
  assumes "dict_get (execute_hooks c PreToolUse (pre_tool_input c tu) (Some (tu_id tu)) (Some (tu_name tu)))
             ''continue_'' \<noteq> PBool False"
    and "\<not> truthy (permission_decision_of
             (execute_hooks c PreToolUse (pre_tool_input c tu) (Some (tu_id tu)) (Some (tu_name tu))))"
    and "opt_can_use_tool (options c) = Some callback"
    and "callback (tu_name tu) (tu_input tu) (c_session_id c) = PermissionResultDeny msg intr"
  shows "execute_tool env tu c
           = (True, append_message (ToolMessage (''Permission denied: '' @ msg) (tu_id tu)) c)
       \<and> snd (execute_tool_with_events env tu c)
           = (True, append_message (ToolMessage (''Permission denied: '' @ msg) (tu_id tu)) c)"
proof -
  have nd: "permission_decision_of
             (execute_hooks c PreToolUse (pre_tool_input c tu) (Some (tu_id tu)) (Some (tu_name tu)))
            \<noteq> PStr ''deny''"
    using assms(2) by auto
  show ?thesis
    using assms nd
    by (simp add: execute_tool_def execute_tool_with_events_def Let_def consult_can_use_tool_def
          permission_decision_of_def)
qed


section \<open>The agent loops\<close>

lemma drain_stream_no_result: "\<not> list_ex is_result (fst (drain_stream msgs r))"
  by (induction msgs r rule: drain_stream.induct) (auto split: prod.splits)

lemma drain_stream_response:
  "snd (drain_stream msgs r) = None \<longleftrightarrow> r = None \<and> \<not> list_ex is_assistant msgs"
  by (induction msgs r rule: drain_stream.induct) (auto split: prod.splits)

lemma consume_events_no_result: "\<not> list_ex is_result (fst (consume_events items b))"
  by (induction items b rule: consume_events.induct) (auto split: prod.splits)

lemma stream_loop_cases:
  assumes "stream_loop env mt t c = (out, t', c')"
  obtains
    (exit) "\<not> t < mt" "out = []" "t' = t" "c' = c"
  | (no_response) "t < mt"
      "snd (drain_stream (provider_stream env (provider_calls c) (messages c)) None) = None"
      "out = fst (drain_stream (provider_stream env (provider_calls c) (messages c)) None)"
      "t' = t + 1" "c' = c\<lparr>provider_calls := Suc (provider_calls c)\<rparr>"
  | (no_tools) response where "t < mt"
      "snd (drain_stream (provider_stream env (provider_calls c) (messages c)) None) = Some response"
      "tool_uses_of (am_content response) = []"
      "out = fst (drain_stream (provider_stream env (provider_calls c) (messages c)) None)
             @ [turn_result c' t']"
      "t' = t + 1" "c' = c\<lparr>provider_calls := Suc (provider_calls c)\<rparr>"
  | (stopped) response items where "t < mt"
      "snd (drain_stream (provider_stream env (provider_calls c) (messages c)) None) = Some response"
      "tool_uses_of (am_content response) \<noteq> []"
      "execute_tools_with_events env (tool_uses_of (am_content response))
         (append_message (AssistantMessage response) (c\<lparr>provider_calls := Suc (provider_calls c)\<rparr>))
       = (items, c')"
      "\<not> snd (consume_events items True)"
      "out = fst (drain_stream (provider_stream env (provider_calls c) (messages c)) None)
             @ fst (consume_events items True) @ [turn_result c' t']"
      "t' = t + 1"
  | (continued) response items c1 out2 where "t < mt"
      "snd (drain_stream (provider_stream env (provider_calls c) (messages c)) None) = Some response"
      "tool_uses_of (am_content response) \<noteq> []"
      "execute_tools_with_events env (tool_uses_of (am_content response))
         (append_message (AssistantMessage response) (c\<lparr>provider_calls := Suc (provider_calls c)\<rparr>))
       = (items, c1)"
      "snd (consume_events items True)"
      "stream_loop env mt (t + 1) c1 = (out2, t', c')"
      "out = fst (drain_stream (provider_stream env (provider_calls c) (messages c)) None)
             @ fst (consume_events items True) @ out2"
proof (cases "t < mt")
  case False
  with assms have "out = []" "t' = t" "c' = c"
    by (auto simp: stream_loop.simps[of env mt t c])
  with False show thesis by (rule exit)
next
  case True
  define c0 where "c0 = c\<lparr>provider_calls := Suc (provider_calls c)\<rparr>"
  define fw where "fw = fst (drain_stream (provider_stream env (provider_calls c) (messages c)) None)"
  define resp where "resp = snd (drain_stream (provider_stream env (provider_calls c) (messages c)) None)"
  have d: "drain_stream (provider_stream env (provider_calls c) (messages c)) None = (fw, resp)"
    by (simp add: fw_def resp_def)
  show thesis
  proof (cases resp)
    case None
    with assms True d have "out = fw" "t' = t + 1" "c' = c0"
      by (auto simp: stream_loop.simps[of env mt t c] Let_def c0_def)
    with True None show thesis
      using no_response by (simp add: fw_def resp_def c0_def)
  next
    case (Some response)
    show thesis
    proof (cases "tool_uses_of (am_content response) = []")
      case nt: True
      with assms True d Some have "out = fw @ [turn_result c0 (t + 1)]" "t' = t + 1" "c' = c0"
        by (auto simp: stream_loop.simps[of env mt t c] Let_def c0_def)
      with True Some nt show thesis
        using no_tools[of response] by (simp add: fw_def resp_def c0_def)
    next
      case ht: False
      obtain items c1 where ex: "execute_tools_with_events env (tool_uses_of (am_content response))
         (append_message (AssistantMessage response) c0) = (items, c1)"
        by (cases "execute_tools_with_events env (tool_uses_of (am_content response))
         (append_message (AssistantMessage response) c0)") auto
      obtain events flag where ce: "consume_events items True = (events, flag)"
        by (cases "consume_events items True") auto
      show thesis
      proof (cases flag)
        case False
        with assms True d Some ht ex ce
        have "out = fw @ events @ [turn_result c1 (t + 1)]" "t' = t + 1" "c' = c1"
          by (auto simp: stream_loop.simps[of env mt t c] Let_def c0_def)
        with True Some ht ex ce False show thesis
          using stopped[of response items] by (simp add: fw_def resp_def c0_def)
      next
        case cont: True
        obtain out2 t2 c2 where rec: "stream_loop env mt (t + 1) c1 = (out2, t2, c2)"
          by (cases "stream_loop env mt (t + 1) c1") auto
        with assms True d Some ht ex ce cont
        have "out = fw @ events @ out2" "t' = t2" "c' = c2"
          by (auto simp: stream_loop.simps[of env mt t c] Let_def c0_def)
        with True Some ht ex ce cont rec show thesis
          using continued[of response items c1 out2] by (simp add: fw_def resp_def c0_def)
      qed
    qed
  qed
qed

lemma stream_loop_props:
  assumes "stream_loop env mt t c = (out, t', c')"
  shows "options c' = options c \<and> c_session_id c' = c_session_id c
       \<and> connected c' = connected c \<and> pending_response c' = pending_response c
       \<and> t \<le> t' \<and> (t < mt \<longrightarrow> t < t' \<and> t' \<le> mt) \<and> (\<not> t < mt \<longrightarrow> t' = t)
       \<and> int (provider_calls c') = int (provider_calls c) + (t' - t)
       \<and> ((\<not> list_ex is_result out
             \<and> (mt \<le> t' \<or> (\<exists>n h. \<not> list_ex is_assistant (provider_stream env n h))))
            \<or> (\<exists>pre. out = pre @ [turn_result c' t'] \<and> \<not> list_ex is_result pre))"
  using assms
proof (induction "nat (mt - t)" arbitrary: t c out)
  case 0
  then have "\<not> t < mt" by simp
  with "0.prems" show ?case
    by (cases rule: stream_loop_cases) simp_all
next
  case (Suc n)
  from Suc.prems show ?case
  proof (cases rule: stream_loop_cases)
    case exit
    then show ?thesis by simp
  next
    case no_response
    have "\<not> list_ex is_assistant (provider_stream env (provider_calls c) (messages c))"
      using no_response(2) by (simp add: drain_stream_response)
    then have "\<exists>n h. \<not> list_ex is_assistant (provider_stream env n h)" by blast
    with no_response show ?thesis
      by (simp add: drain_stream_no_result)
  next
    case (no_tools response)
    have "\<exists>pre. out = pre @ [turn_result c' t'] \<and> \<not> list_ex is_result pre"
      using no_tools(4) drain_stream_no_result by blast
    with no_tools show ?thesis by simp
  next
    case (stopped response items)
    note fr = execute_tools_with_events_frame[OF stopped(4)]
    have "\<not> list_ex is_result
            (fst (drain_stream (provider_stream env (provider_calls c) (messages c)) None)
             @ fst (consume_events items True))"
      by (simp add: drain_stream_no_result consume_events_no_result)
    with stopped(6)
    have "\<exists>pre. out = pre @ [turn_result c' t'] \<and> \<not> list_ex is_result pre"
      by (metis append.assoc)
    with stopped fr show ?thesis by (simp add: append_message_def)
  next
    case (continued response items c1 out2)
    note fr = execute_tools_with_events_frame[OF continued(4)]
    from Suc.hyps(2) continued(1) have n: "n = nat (mt - (t + 1))" by simp
    note ih = Suc.hyps(1)[OF n continued(6)]
    have nr: "\<not> list_ex is_result
            (fst (drain_stream (provider_stream env (provider_calls c) (messages c)) None)
             @ fst (consume_events items True))"
      by (simp add: drain_stream_no_result consume_events_no_result)
    from ih have shape:
      "(\<not> list_ex is_result out2
          \<and> (mt \<le> t' \<or> (\<exists>n h. \<not> list_ex is_assistant (provider_stream env n h))))
       \<or> (\<exists>pre. out2 = pre @ [turn_result c' t'] \<and> \<not> list_ex is_result pre)"
      by blast
    have out_shape:
      "(\<not> list_ex is_result out
          \<and> (mt \<le> t' \<or> (\<exists>n h. \<not> list_ex is_assistant (provider_stream env n h))))
       \<or> (\<exists>pre. out = pre @ [turn_result c' t'] \<and> \<not> list_ex is_result pre)"
      using shape
    proof
      assume "\<not> list_ex is_result out2
          \<and> (mt \<le> t' \<or> (\<exists>n h. \<not> list_ex is_assistant (provider_stream env n h)))"
      with nr continued(7) show ?thesis by simp
    next
      assume "\<exists>pre. out2 = pre @ [turn_result c' t'] \<and> \<not> list_ex is_result pre"
      then obtain pre where p: "out2 = pre @ [turn_result c' t']" "\<not> list_ex is_result pre"
        by blast
      have "out = (fst (drain_stream (provider_stream env (provider_calls c) (messages c)) None)
             @ fst (consume_events items True) @ pre) @ [turn_result c' t']"
        using continued(7) p(1) by simp
      moreover have "\<not> list_ex is_result
             (fst (drain_stream (provider_stream env (provider_calls c) (messages c)) None)
             @ fst (consume_events items True) @ pre)"
        using nr p(2) by simp
      ultimately show ?thesis by blast
    qed
    from ih continued(1) have ar: "t < t' \<and> t' \<le> mt" by auto
    from ih fr have calls: "int (provider_calls c') = int (provider_calls c) + (t' - t)"
      by (simp add: append_message_def)
    from ih fr have frame: "options c' = options c \<and> c_session_id c' = c_session_id c
       \<and> connected c' = connected c \<and> pending_response c' = pending_response c"
      by (simp add: append_message_def)
    from ar calls frame out_shape continued(1) show ?thesis
      by simp
  qed
qed

lemma execute_tools_frame:
  assumes "execute_tools env tus c = (flag, c')"
  shows "options c' = options c \<and> provider_calls c' = provider_calls c
     \<and> c_session_id c' = c_session_id c \<and> connected c' = connected c
     \<and> pending_response c' = pending_response c"
proof -
  obtain items c2 where w: "execute_tools_with_events env tus c = (items, c2)"
    by (cases "execute_tools_with_events env tus c") auto
  with assms have "c' = c2"
    using execute_tools_eq[of env tus c True] by simp
  with execute_tools_with_events_frame[OF w] show ?thesis by simp
qed

lemma complete_loop_cases:
  assumes "complete_loop env mt t c = (out, t', c')"
  obtains
    (exit) "\<not> t < mt" "out = []" "t' = t" "c' = c"
  | (no_tools) "t < mt"
      "tool_uses_of (am_content (provider_complete env (provider_calls c) (messages c))) = []"
      "out = [Message (AssistantMessage (provider_complete env (provider_calls c) (messages c))),
              turn_result c' t']"
      "t' = t + 1" "c' = c\<lparr>provider_calls := Suc (provider_calls c)\<rparr>"
  | (stopped) "t < mt"
      "tool_uses_of (am_content (provider_complete env (provider_calls c) (messages c))) \<noteq> []"
      "execute_tools env (tool_uses_of (am_content (provider_complete env (provider_calls c) (messages c))))
         (append_message (AssistantMessage (provider_complete env (provider_calls c) (messages c)))
            (c\<lparr>provider_calls := Suc (provider_calls c)\<rparr>))
       = (False, c')"
      "out = [Message (AssistantMessage (provider_complete env (provider_calls c) (messages c))),
              turn_result c' t']"
      "t' = t + 1"
  | (continued) c1 out2 where "t < mt"
      "tool_uses_of (am_content (provider_complete env (provider_calls c) (messages c))) \<noteq> []"
      "execute_tools env (tool_uses_of (am_content (provider_complete env (provider_calls c) (messages c))))
         (append_message (AssistantMessage (provider_complete env (provider_calls c) (messages c)))
            (c\<lparr>provider_calls := Suc (provider_calls c)\<rparr>))
       = (True, c1)"
      "complete_loop env mt (t + 1) c1 = (out2, t', c')"
      "out = Message (AssistantMessage (provider_complete env (provider_calls c) (messages c))) # out2"
proof (cases "t < mt")
  case False
  with assms have "out = []" "t' = t" "c' = c"
    by (auto simp: complete_loop.simps[of env mt t c])
  with False show thesis by (rule exit)
next
  case True
  define c0 where "c0 = c\<lparr>provider_calls := Suc (provider_calls c)\<rparr>"
  define response where "response = provider_complete env (provider_calls c) (messages c)"
  show thesis
  proof (cases "tool_uses_of (am_content response) = []")
    case nt: True
    with assms True
    have "out = [Message (AssistantMessage response), turn_result c0 (t + 1)]" "t' = t + 1" "c' = c0"
      by (auto simp: complete_loop.simps[of env mt t c] Let_def c0_def response_def)
    with True nt show thesis
      using no_tools by (simp add: c0_def response_def)
  next
    case ht: False
    obtain flag c1 where ex: "execute_tools env (tool_uses_of (am_content response))
         (append_message (AssistantMessage response) c0) = (flag, c1)"
      by (cases "execute_tools env (tool_uses_of (am_content response))
         (append_message (AssistantMessage response) c0)") auto
    show thesis
    proof (cases flag)
      case False
      with assms True ht ex
      have "out = [Message (AssistantMessage response), turn_result c1 (t + 1)]" "t' = t + 1" "c' = c1"
        by (auto simp: complete_loop.simps[of env mt t c] Let_def c0_def response_def)
      with True ht ex False show thesis
        using stopped by (simp add: c0_def response_def)
    next
      case cont: True
      obtain out2 t2 c2 where rec: "complete_loop env mt (t + 1) c1 = (out2, t2, c2)"
        by (cases "complete_loop env mt (t + 1) c1") auto
      with assms True ht ex cont
      have "out = Message (AssistantMessage response) # out2" "t' = t2" "c' = c2"
        by (auto simp: complete_loop.simps[of env mt t c] Let_def c0_def response_def)
      with True ht ex cont rec show thesis
        using continued[of c1 out2] by (simp add: c0_def response_def)
    qed
  qed
qed

lemma complete_loop_props:
  assumes "complete_loop env mt t c = (out, t', c')"
  shows "options c' = options c \<and> c_session_id c' = c_session_id c
       \<and> connected c' = connected c \<and> pending_response c' = pending_response c
       \<and> t \<le> t' \<and> (t < mt \<longrightarrow> t < t' \<and> t' \<le> mt) \<and> (\<not> t < mt \<longrightarrow> t' = t)
       \<and> int (provider_calls c') = int (provider_calls c) + (t' - t)
       \<and> ((\<not> list_ex is_result out \<and> mt \<le> t')
            \<or> (\<exists>pre. out = pre @ [turn_result c' t'] \<and> \<not> list_ex is_result pre))"
  using assms
proof (induction "nat (mt - t)" arbitrary: t c out)
  case 0
  then have "\<not> t < mt" by simp
  with "0.prems" show ?case
    by (cases rule: complete_loop_cases) simp_all
next
  case (Suc n)
  from Suc.prems show ?case
  proof (cases rule: complete_loop_cases)
    case exit
    then show ?thesis by simp
  next
    case no_tools
    have "\<exists>pre. out = pre @ [turn_result c' t'] \<and> \<not> list_ex is_result pre"
      using no_tools(3)
      by (intro exI[of _ "[Message (AssistantMessage (provider_complete env (provider_calls c) (messages c)))]"]) simp
    with no_tools show ?thesis by simp
  next
    case stopped
    note fr = execute_tools_frame[OF stopped(3)]
    have "\<exists>pre. out = pre @ [turn_result c' t'] \<and> \<not> list_ex is_result pre"
      using stopped(4)
      by (intro exI[of _ "[Message (AssistantMessage (provider_complete env (provider_calls c) (messages c)))]"]) simp
    with stopped fr show ?thesis by (simp add: append_message_def)
  next
    case (continued c1 out2)
    note fr = execute_tools_frame[OF continued(3)]
    from Suc.hyps(2) continued(1) have n: "n = nat (mt - (t + 1))" by simp
    note ih = Suc.hyps(1)[OF n continued(4)]
    from ih have shape:
      "(\<not> list_ex is_result out2 \<and> mt \<le> t')
       \<or> (\<exists>pre. out2 = pre @ [turn_result c' t'] \<and> \<not> list_ex is_result pre)"
      by blast
    have out_shape:
      "(\<not> list_ex is_result out \<and> mt \<le> t')
       \<or> (\<exists>pre. out = pre @ [turn_result c' t'] \<and> \<not> list_ex is_result pre)"
      using shape
    proof
      assume "\<not> list_ex is_result out2 \<and> mt \<le> t'"
      with continued(5) show ?thesis by simp
    next
      assume "\<exists>pre. out2 = pre @ [turn_result c' t'] \<and> \<not> list_ex is_result pre"
      then obtain pre where p: "out2 = pre @ [turn_result c' t']" "\<not> list_ex is_result pre"
        by blast
      have "out = (Message (AssistantMessage (provider_complete env (provider_calls c) (messages c))) # pre)
                  @ [turn_result c' t']"
        using continued(5) p(1) by simp
      moreover have "\<not> list_ex is_result
             (Message (AssistantMessage (provider_complete env (provider_calls c) (messages c))) # pre)"
        using p(2) by simp
      ultimately show ?thesis by blast
    qed
    from ih continued(1) have ar: "t < t' \<and> t' \<le> mt" by auto
    from ih fr have calls: "int (provider_calls c') = int (provider_calls c) + (t' - t)"
      by (simp add: append_message_def)
    from ih fr have frame: "options c' = options c \<and> c_session_id c' = c_session_id c
       \<and> connected c' = connected c \<and> pending_response c' = pending_response c"
      by (simp add: append_message_def)
    from ar calls frame out_shape continued(1) show ?thesis
      by simp
  qed
qed

lemma until_result_id: "\<not> list_ex is_result xs \<Longrightarrow> until_result xs = xs"
  by (induction xs) auto

lemma until_result_cut:
  "\<not> list_ex is_result pre \<Longrightarrow> is_result r \<Longrightarrow> until_result (pre @ r # rest) = pre @ [r]"
  by (induction pre) auto

lemma until_result_shape:
  "list_ex is_result xs \<Longrightarrow>
     \<exists>pre r. until_result xs = pre @ [r] \<and> is_result r \<and> \<not> list_ex is_result pre"
proof (induction xs)
  case Nil
  then show ?case by simp
next
  case (Cons x xs)
  show ?case
  proof (cases "is_result x")
    case True
    then have "until_result (x # xs) = [] @ [x]" by simp
    with True show ?thesis by (intro exI[of _ "[]"] exI[of _ x]) simp
  next
    case False
    with Cons.prems have "list_ex is_result xs" by simp
    from Cons.IH[OF this] obtain pre r where
      p: "until_result xs = pre @ [r]" "is_result r" "\<not> list_ex is_result pre" by blast
    with False have "until_result (x # xs) = (x # pre) @ [r]" "\<not> list_ex is_result (x # pre)"
      by simp_all
    with p(2) show ?thesis by blast
  qed
qed

lemma single_terminal_snoc:
  "\<not> list_ex is_result pre \<Longrightarrow> is_result r \<Longrightarrow> single_terminal (pre @ [r])"
  by (simp add: single_terminal_def list_ex_iff filter_empty_conv[THEN iffD2])

lemma until_result_terminal:
  "length (filter is_result (until_result xs)) \<le> 1
   \<and> (list_ex is_result (until_result xs) \<longrightarrow> is_result (last (until_result xs)))
   \<and> (single_terminal (until_result xs) \<longleftrightarrow> list_ex is_result xs)"
proof (cases "list_ex is_result xs")
  case True
  from until_result_shape[OF this] obtain pre r where
    p: "until_result xs = pre @ [r]" "is_result r" "\<not> list_ex is_result pre" by blast
  have "filter is_result pre = []"
    using p(3) by (simp add: list_ex_iff filter_empty_conv)
  with p True single_terminal_snoc[OF p(3) p(2)] show ?thesis by simp
next
  case False
  then have "until_result xs = xs" by (rule until_result_id)
  moreover from False have "filter is_result xs = []"
    by (simp add: list_ex_iff filter_empty_conv)
  ultimately show ?thesis using False by (simp add: single_terminal_def)
qed


lemma is_result_turn_result [simp]: "is_result (turn_result c t)"
  by (simp add: turn_result_def)

lemma stream_with_tools_has_result:
  assumes "stream_with_tools env c = (full, c1)"
    and "\<forall>n h. list_ex is_assistant (provider_stream env n h)"
  shows "list_ex is_result full"
proof -
  obtain lo t' c2 where l: "stream_loop env (effective_max_turns (opt_max_turns (options c))) 0 c = (lo, t', c2)"
    by (cases "stream_loop env (effective_max_turns (opt_max_turns (options c))) 0 c") auto
  with assms(1) have full: "full = lo @ (if effective_max_turns (opt_max_turns (options c)) \<le> t'
                                         then [turn_result c2 t'] else [])"
    by (auto simp: stream_with_tools_def Let_def)
  from stream_loop_props[OF l] assms(2)
  have "(\<not> list_ex is_result lo \<and> effective_max_turns (opt_max_turns (options c)) \<le> t')
        \<or> (\<exists>pre. lo = pre @ [turn_result c2 t'] \<and> \<not> list_ex is_result pre)"
    by blast
  then show ?thesis
  proof
    assume "\<not> list_ex is_result lo \<and> effective_max_turns (opt_max_turns (options c)) \<le> t'"
    with full show ?thesis by simp
  next
    assume "\<exists>pre. lo = pre @ [turn_result c2 t'] \<and> \<not> list_ex is_result pre"
    with full show ?thesis by auto
  qed
qed

lemma complete_with_tools_has_result:
  assumes "complete_with_tools env c = (full, c1)"
  shows "list_ex is_result full"
proof -
  obtain lo t' c2 where l: "complete_loop env (effective_max_turns (opt_max_turns (options c))) 0 c = (lo, t', c2)"
    by (cases "complete_loop env (effective_max_turns (opt_max_turns (options c))) 0 c") auto
  with assms(1) have full: "full = lo @ (if effective_max_turns (opt_max_turns (options c)) \<le> t'
                                         then [turn_result c2 t'] else [])"
    by (auto simp: complete_with_tools_def Let_def)
  from complete_loop_props[OF l]
  have "(\<not> list_ex is_result lo \<and> effective_max_turns (opt_max_turns (options c)) \<le> t')
        \<or> (\<exists>pre. lo = pre @ [turn_result c2 t'] \<and> \<not> list_ex is_result pre)"
    by blast
  then show ?thesis
  proof
    assume "\<not> list_ex is_result lo \<and> effective_max_turns (opt_max_turns (options c)) \<le> t'"
    with full show ?thesis by simp
  next
    assume "\<exists>pre. lo = pre @ [turn_result c2 t'] \<and> \<not> list_ex is_result pre"
    with full show ?thesis by auto
  qed
qed

lemma receive_out:
  assumes "receive env c = Inr (out, c')"
  obtains g full c1 where "pending_response c = Some g" "run_pending env g c = (full, c1)"
    "out = until_result full" "provider_calls c' = provider_calls c1"
  using assms
  by (auto simp: receive_def split: option.splits prod.splits)

text \<open>
  Claim C1, as it holds on the code. Whatever the provider returns, \<open>receive\<close> yields at most
  one \<open>ResultMessage\<close>, and a \<open>ResultMessage\<close> it yields is the last element: it returns
  right after the first one, so the second one that the loops produce when the final turn
  is also the \<open>max_turns\<close>-th is never read. In the non-streaming loop there is exactly one.
  In the streaming loop there is exactly one whenever every provider stream carries an
  \<open>AssistantMessage\<close>.
\<close>

theorem receive_single_terminal:
  assumes "receive env c = Inr (out, c')"
  shows "length (filter is_result out) \<le> 1
       \<and> (list_ex is_result out \<longrightarrow> is_result (last out))
       \<and> (pending_response c = Some CompleteWithTools \<longrightarrow> single_terminal out)
       \<and> (pending_response c = Some StreamWithTools
            \<and> (\<forall>n h. list_ex is_assistant (provider_stream env n h)) \<longrightarrow> single_terminal out)"
proof -
  from assms obtain g full c1 where
    r: "pending_response c = Some g" "run_pending env g c = (full, c1)" "out = until_result full"
    by (rule receive_out)
  note ur = until_result_terminal[of full]
  have a: "pending_response c = Some CompleteWithTools \<longrightarrow> single_terminal out"
  proof
    assume "pending_response c = Some CompleteWithTools"
    with r have "complete_with_tools env c = (full, c1)" by (simp add: run_pending_def)
    then have "list_ex is_result full" by (rule complete_with_tools_has_result)
    with ur r(3) show "single_terminal out" by simp
  qed
  have b: "pending_response c = Some StreamWithTools
            \<and> (\<forall>n h. list_ex is_assistant (provider_stream env n h)) \<longrightarrow> single_terminal out"
  proof
    assume h: "pending_response c = Some StreamWithTools
            \<and> (\<forall>n h. list_ex is_assistant (provider_stream env n h))"
    with r have "stream_with_tools env c = (full, c1)" by (simp add: run_pending_def)
    with h have "list_ex is_result full" by (intro stream_with_tools_has_result) auto
    with ur r(3) show "single_terminal out" by simp
  qed
  from ur r(3) a b show ?thesis by simp
qed

lemma asked_sent:
  "opt_system_prompt opts = None \<Longrightarrow> opt_hooks opts = None \<Longrightarrow>
     send (UserMessage (UserText ''hello'')) (connect (new_client opts ''s1'')) = Inr (asked opts)"
  by (simp add: send_def asked_def connect_def new_client_def execute_hooks_def Let_def dict_get_def)

theorem receive_single_terminal_witness:
  "receive (fixed_provider [Message (AssistantMessage (says [TextBlock ''hi''])), provider_result None (Some FR_STOP)]
              (says [TextBlock ''hi'']))
           (asked (default_options\<lparr>opt_max_turns := Some 3\<rparr>))
     = Inr ([Message (AssistantMessage (says [TextBlock ''hi''])),
             turn_result (asked default_options) 1],
            (asked (default_options\<lparr>opt_max_turns := Some 3\<rparr>))
              \<lparr>pending_response := None, provider_calls := 1\<rparr>)
   \<and> single_terminal [Message (AssistantMessage (says [TextBlock ''hi''])),
                       turn_result (asked default_options) 1]"
  using receive_single_terminal
    [of "fixed_provider [Message (AssistantMessage (says [TextBlock ''hi''])), provider_result None (Some FR_STOP)]
              (says [TextBlock ''hi''])"
        "asked (default_options\<lparr>opt_max_turns := Some 3\<rparr>)"
        "[Message (AssistantMessage (says [TextBlock ''hi''])),
             turn_result (asked default_options) 1]"
        "(asked (default_options\<lparr>opt_max_turns := Some 3\<rparr>))
              \<lparr>pending_response := None, provider_calls := 1\<rparr>"]
  by (simp add: receive_def run_pending_def stream_with_tools_def stream_loop.simps
        effective_max_turns_def fixed_provider_def asked_def default_options_def connect_def
        new_client_def execute_hooks_def Let_def dict_get_def says_def provider_result_def
        turn_result_def)

text \<open>
  Claim C1 as stated fails for a provider stream that ends without an \<open>AssistantMessage\<close>
  before \<open>max_turns\<close> is reached: the loop leaves by \<open>if response is None: break\<close>, the
  provider's own result message was skipped, and \<open>receive\<close> ends without any
  \<open>ResultMessage\<close>.
\<close>

theorem stream_without_assistant_message_counterexample:
  "receive (fixed_provider [StreamEvent \<lparr>event_type = ''content_block_delta'', ev_index = None,
                                          ev_delta = Some [(''type'', PStr ''text_delta''), (''text'', PStr ''hi'')]\<rparr>,
                            provider_result None (Some FR_STOP)]
              (says []))
           (asked default_options)
     = Inr ([StreamEvent \<lparr>event_type = ''content_block_delta'', ev_index = None,
                           ev_delta = Some [(''type'', PStr ''text_delta''), (''text'', PStr ''hi'')]\<rparr>],
            (asked default_options)\<lparr>pending_response := Some Exhausted, provider_calls := 1\<rparr>)
   \<and> \<not> single_terminal
          [StreamEvent \<lparr>event_type = ''content_block_delta'', ev_index = None,
                         ev_delta = Some [(''type'', PStr ''text_delta''), (''text'', PStr ''hi'')]\<rparr>]"
  by (simp add: receive_def run_pending_def stream_with_tools_def stream_loop.simps
        effective_max_turns_def fixed_provider_def asked_def default_options_def connect_def
        new_client_def execute_hooks_def Let_def dict_get_def says_def provider_result_def
        turn_result_def single_terminal_def)

lemma run_pending_calls:
  assumes "run_pending env g c = (full, c1)" and "0 < effective_max_turns (opt_max_turns (options c))"
  shows "c_session_id c1 = c_session_id c
       \<and> provider_calls c1 \<le> provider_calls c + nat (effective_max_turns (opt_max_turns (options c)))
       \<and> (provider_calls c1 = provider_calls c + nat (effective_max_turns (opt_max_turns (options c)))
            \<longrightarrow> until_result full \<noteq> []
               \<and> last (until_result full)
                   = turn_result c (effective_max_turns (opt_max_turns (options c))))"
proof -
  define mt where "mt = effective_max_turns (opt_max_turns (options c))"
  have pos: "0 < mt" using assms(2) by (simp add: mt_def)
  have key: "c_session_id c1 = c_session_id c \<and> provider_calls c1 \<le> provider_calls c + nat mt
       \<and> (provider_calls c1 = provider_calls c + nat mt
            \<longrightarrow> until_result full \<noteq> [] \<and> last (until_result full) = turn_result c mt)"
    if l: "lp = (lo, t', c1)"
      and full: "full = lo @ (if mt \<le> t' then [turn_result c1 t'] else [])"
      and props: "c_session_id c1 = c_session_id c \<and> 0 \<le> t' \<and> (0 < mt \<longrightarrow> 0 < t' \<and> t' \<le> mt)
         \<and> int (provider_calls c1) = int (provider_calls c) + (t' - 0)
         \<and> ((\<not> list_ex is_result lo) \<or> (\<exists>pre. lo = pre @ [turn_result c1 t'] \<and> \<not> list_ex is_result pre))"
    for lp lo t'
  proof -
    from props pos have t: "0 < t'" "t' \<le> mt" by auto
    from props have calls: "provider_calls c1 = provider_calls c + nat t'" by linarith
    have sid: "turn_result c1 t' = turn_result c t'"
      using props by (simp add: turn_result_def)
    have last_ok: "until_result full \<noteq> [] \<and> last (until_result full) = turn_result c mt" if "t' = mt"
    proof -
      from props have "(\<not> list_ex is_result lo) \<or> (\<exists>pre. lo = pre @ [turn_result c1 t'] \<and> \<not> list_ex is_result pre)"
        by blast
      then show ?thesis
      proof
        assume nr: "\<not> list_ex is_result lo"
        from full that have "full = lo @ turn_result c t' # []" using sid by simp
        with nr have "until_result full = lo @ [turn_result c t']"
          by (simp add: until_result_cut)
        with that show ?thesis by simp
      next
        assume "\<exists>pre. lo = pre @ [turn_result c1 t'] \<and> \<not> list_ex is_result pre"
        then obtain pre where p: "lo = pre @ [turn_result c1 t']" "\<not> list_ex is_result pre" by blast
        from full that p(1) have "full = pre @ turn_result c t' # [turn_result c t']" using sid by simp
        with p(2) have "until_result full = pre @ [turn_result c t']"
          by (simp add: until_result_cut)
        with that show ?thesis by simp
      qed
    qed
    from t calls last_ok props show ?thesis by auto
  qed
  show ?thesis
  proof (cases g)
    case StreamWithTools
    obtain lo t' c2 where l: "stream_loop env mt 0 c = (lo, t', c2)"
      by (cases "stream_loop env mt 0 c") auto
    with assms(1) StreamWithTools have c2: "c2 = c1"
      and full: "full = lo @ (if mt \<le> t' then [turn_result c1 t'] else [])"
      by (auto simp: run_pending_def stream_with_tools_def Let_def mt_def)
    from stream_loop_props[OF l] c2
    have "c_session_id c1 = c_session_id c \<and> 0 \<le> t' \<and> (0 < mt \<longrightarrow> 0 < t' \<and> t' \<le> mt)
         \<and> int (provider_calls c1) = int (provider_calls c) + (t' - 0)
         \<and> ((\<not> list_ex is_result lo) \<or> (\<exists>pre. lo = pre @ [turn_result c1 t'] \<and> \<not> list_ex is_result pre))"
      by blast
    from key[OF refl full this] show ?thesis by (simp add: mt_def)
  next
    case CompleteWithTools
    obtain lo t' c2 where l: "complete_loop env mt 0 c = (lo, t', c2)"
      by (cases "complete_loop env mt 0 c") auto
    with assms(1) CompleteWithTools have c2: "c2 = c1"
      and full: "full = lo @ (if mt \<le> t' then [turn_result c1 t'] else [])"
      by (auto simp: run_pending_def complete_with_tools_def Let_def mt_def)
    from complete_loop_props[OF l] c2
    have "c_session_id c1 = c_session_id c \<and> 0 \<le> t' \<and> (0 < mt \<longrightarrow> 0 < t' \<and> t' \<le> mt)
         \<and> int (provider_calls c1) = int (provider_calls c) + (t' - 0)
         \<and> ((\<not> list_ex is_result lo) \<or> (\<exists>pre. lo = pre @ [turn_result c1 t'] \<and> \<not> list_ex is_result pre))"
      by blast
    from key[OF refl full this] show ?thesis by (simp add: mt_def)
  next
    case Exhausted
    with assms pos show ?thesis by (auto simp: run_pending_def mt_def)
  qed
qed

text \<open>
  Claim C3. With \<open>max_turns = N\<close> positive (or unset, and \<open>N = 10\<close>), one \<open>receive\<close> calls
  the provider at most \<open>N\<close> times; and when it did call it \<open>N\<close> times, what it yields ends
  with a \<open>ResultMessage\<close> that has \<open>is_error = False\<close> and \<open>num_turns = N\<close>.
\<close>

theorem provider_calls_bounded_by_max_turns:
  assumes "receive env c = Inr (out, c')"
    and "0 < N"
    and "opt_max_turns (options c) = Some N \<or> (opt_max_turns (options c) = None \<and> N = 10)"
  shows "provider_calls c' \<le> provider_calls c + nat N
       \<and> (provider_calls c' = provider_calls c + nat N \<longrightarrow>
            out \<noteq> []
            \<and> last out = ResultMessage \<lparr>is_error = False, duration_ms = 0, num_turns = N,
                                         rm_session_id = Some (c_session_id c), rm_usage = None,
                                         rm_result = None, rm_finish_reason = None\<rparr>)"
proof -
  from assms(1) obtain g full c1 where
    r: "pending_response c = Some g" "run_pending env g c = (full, c1)" "out = until_result full"
       "provider_calls c' = provider_calls c1"
    by (rule receive_out)
  from assms(2,3) have mt: "effective_max_turns (opt_max_turns (options c)) = N"
    by (auto simp: effective_max_turns_def)
  from run_pending_calls[OF r(2)] assms(2) mt r(3,4) show ?thesis
    by (simp add: turn_result_def)
qed

theorem provider_calls_bounded_by_max_turns_witness:
  "receive (fixed_provider [Message (AssistantMessage (says [ToolUse add_call])),
                            provider_result None (Some FR_TOOL_USE)]
              (says [ToolUse add_call]))
           (asked (default_options\<lparr>opt_tools := [add_tool], opt_max_turns := Some 2\<rparr>))
     = Inr ([Message (AssistantMessage (says [ToolUse add_call])),
             StreamEvent (start_event add_call),
             StreamEvent (complete_event (fixed_provider [] (says [])) add_call ''5''),
             Message (AssistantMessage (says [ToolUse add_call])),
             StreamEvent (start_event add_call),
             StreamEvent (complete_event (fixed_provider [] (says [])) add_call ''5''),
             ResultMessage \<lparr>is_error = False, duration_ms = 0, num_turns = 2,
                            rm_session_id = Some ''s1'', rm_usage = None,
                            rm_result = None, rm_finish_reason = None\<rparr>],
            (asked (default_options\<lparr>opt_tools := [add_tool], opt_max_turns := Some 2\<rparr>))
              \<lparr>messages := [UserMessage (UserText ''hello''),
                             AssistantMessage (says [ToolUse add_call]), ToolMessage ''5'' ''t1'',
                             AssistantMessage (says [ToolUse add_call]), ToolMessage ''5'' ''t1''],
               pending_response := None, provider_calls := 2,
               handler_calls := [(''add'', PDict [(''a'', PInt 2), (''b'', PInt 3)]),
                                 (''add'', PDict [(''a'', PInt 2), (''b'', PInt 3)])]\<rparr>)
   \<and> (0::int) < 2
   \<and> opt_max_turns (options (asked (default_options\<lparr>opt_tools := [add_tool], opt_max_turns := Some 2\<rparr>)))
       = Some 2"
  using provider_calls_bounded_by_max_turns
    [of "fixed_provider [Message (AssistantMessage (says [ToolUse add_call])),
                            provider_result None (Some FR_TOOL_USE)]
              (says [ToolUse add_call])"
        "asked (default_options\<lparr>opt_tools := [add_tool], opt_max_turns := Some 2\<rparr>)"
        _ _ 2]
  by (simp add: receive_def run_pending_def stream_with_tools_def stream_loop.simps
        effective_max_turns_def fixed_provider_def asked_def default_options_def connect_def
        new_client_def execute_hooks_def Let_def dict_get_def says_def provider_result_def
        turn_result_def add_tool_def add_call_def
        execute_tool_with_events_def after_handler_with_events_def append_message_def
        consult_can_use_tool_def find_tool_def result_content_def py_or_def as_dict_def
        start_event_def complete_event_def tool_event_def)


section \<open>The turn bound when \<open>max_turns\<close> is \<open>0\<close> or unset\<close>

lemma set_max_turns_hooks [simp]:
  "execute_hooks (set_max_turns x c) = execute_hooks c"
  by (intro ext) (simp add: execute_hooks_def set_max_turns_def split: option.splits)

lemma set_max_turns_fields [simp]:
  "messages (set_max_turns x c) = messages c"
  "provider_calls (set_max_turns x c) = provider_calls c"
  "handler_calls (set_max_turns x c) = handler_calls c"
  "c_session_id (set_max_turns x c) = c_session_id c"
  "opt_max_turns (options (set_max_turns x c)) = x"
  "set_max_turns x (set_max_turns y c) = set_max_turns x c"
  "append_message m (set_max_turns x c) = set_max_turns x (append_message m c)"
  "(set_max_turns x c)\<lparr>provider_calls := k\<rparr> = set_max_turns x (c\<lparr>provider_calls := k\<rparr>)"
  "(set_max_turns x c)\<lparr>handler_calls := hc\<rparr> = set_max_turns x (c\<lparr>handler_calls := hc\<rparr>)"
  by (simp_all add: set_max_turns_def append_message_def)

lemma set_max_turns_tool_with_events:
  "execute_tool_with_events env tu (set_max_turns x c)
     = map_prod id (map_prod id (set_max_turns x)) (execute_tool_with_events env tu c)"
proof -
  have pre [simp]: "pre_tool_input (set_max_turns x c) tu = pre_tool_input c tu"
    by (simp add: pre_tool_input_def)
  have consult [simp]: "consult_can_use_tool (set_max_turns x c) tu d = consult_can_use_tool c tu d" for d
    by (simp add: consult_can_use_tool_def set_max_turns_def split: option.splits)
  have find [simp]: "find_tool (set_max_turns x c) n = find_tool c n" for n
    by (simp add: find_tool_def set_max_turns_def)
  have after: "after_handler_with_events env tu ti body (set_max_turns x c1)
     = map_prod id (map_prod id (set_max_turns x)) (after_handler_with_events env tu ti body c1)"
    for ti body c1
    by (simp add: after_handler_with_events_def Let_def post_tool_input_def)
  show ?thesis
    unfolding execute_tool_with_events_def
    by (simp add: Let_def after error_input_def
          split: option.splits permission_result.splits handler_reply.splits prod.splits)
qed

lemma set_max_turns_tools_with_events:
  "execute_tools_with_events env tus (set_max_turns x c)
     = map_prod id (set_max_turns x) (execute_tools_with_events env tus c)"
proof (induction tus arbitrary: c)
  case Nil
  then show ?case by simp
next
  case (Cons tu tus)
  obtain evs flag c1 where step: "execute_tool_with_events env tu c = (evs, flag, c1)"
    by (cases "execute_tool_with_events env tu c") auto
  show ?case
    using step Cons[of c1]
    by (cases flag) (simp_all add: set_max_turns_tool_with_events split: prod.splits)
qed

lemma set_max_turns_tools:
  "execute_tools env tus (set_max_turns x c)
     = map_prod id (set_max_turns x) (execute_tools env tus c)"
  by (simp add: execute_tools_eq[of _ _ _ True] set_max_turns_tools_with_events)

lemma turn_result_set_max_turns [simp]:
  "turn_result (set_max_turns x c) t = turn_result c t"
  by (simp add: turn_result_def)

lemma set_max_turns_stream_loop:
  "stream_loop env mt t (set_max_turns x c)
     = map_prod id (map_prod id (set_max_turns x)) (stream_loop env mt t c)"
proof (induction "nat (mt - t)" arbitrary: t c)
  case 0
  then have "\<not> t < mt" by simp
  then show ?case
    by (simp add: stream_loop.simps[of env mt t c] stream_loop.simps[of env mt t "set_max_turns x c"])
next
  case (Suc n)
  show ?case
  proof (cases "t < mt")
    case False
    then show ?thesis
      by (simp add: stream_loop.simps[of env mt t c] stream_loop.simps[of env mt t "set_max_turns x c"])
  next
    case True
    with Suc.hyps(2) have n: "n = nat (mt - (t + 1))" by simp
    note ih = Suc.hyps(1)[OF n]
    show ?thesis
      using True
      by (simp add: stream_loop.simps[of env mt t c] stream_loop.simps[of env mt t "set_max_turns x c"]
            Let_def set_max_turns_tools_with_events ih
            split: prod.splits option.splits)
  qed
qed

lemma set_max_turns_complete_loop:
  "complete_loop env mt t (set_max_turns x c)
     = map_prod id (map_prod id (set_max_turns x)) (complete_loop env mt t c)"
proof (induction "nat (mt - t)" arbitrary: t c)
  case 0
  then have "\<not> t < mt" by simp
  then show ?case
    by (simp add: complete_loop.simps[of env mt t c] complete_loop.simps[of env mt t "set_max_turns x c"])
next
  case (Suc n)
  show ?case
  proof (cases "t < mt")
    case False
    then show ?thesis
      by (simp add: complete_loop.simps[of env mt t c] complete_loop.simps[of env mt t "set_max_turns x c"])
  next
    case True
    with Suc.hyps(2) have n: "n = nat (mt - (t + 1))" by simp
    note ih = Suc.hyps(1)[OF n]
    define response where "response = provider_complete env (provider_calls c) (messages c)"
    obtain flag c1 where ex: "execute_tools env (tool_uses_of (am_content response))
         (append_message (AssistantMessage response) (c\<lparr>provider_calls := Suc (provider_calls c)\<rparr>))
       = (flag, c1)"
      by (cases "execute_tools env (tool_uses_of (am_content response))
         (append_message (AssistantMessage response) (c\<lparr>provider_calls := Suc (provider_calls c)\<rparr>))") auto
    obtain out2 t2 c2 where rec: "complete_loop env mt (t + 1) c1 = (out2, t2, c2)"
      by (cases "complete_loop env mt (t + 1) c1") auto
    show ?thesis
      using True ex rec ih[of c1]
      by (simp add: complete_loop.simps[of env mt t c] complete_loop.simps[of env mt t "set_max_turns x c"]
            Let_def set_max_turns_tools response_def)
  qed
qed

lemma run_pending_same_bound:
  assumes "effective_max_turns x = effective_max_turns y"
  shows "run_pending env g (set_max_turns x c)
           = map_prod id (set_max_turns x) (run_pending env g (set_max_turns y c))"
proof (cases g)
  case StreamWithTools
  obtain lo t' c2 where l: "stream_loop env (effective_max_turns y) 0 c = (lo, t', c2)"
    by (cases "stream_loop env (effective_max_turns y) 0 c") auto
  have "stream_loop env (effective_max_turns y) 0 (set_max_turns x c) = (lo, t', set_max_turns x c2)"
       "stream_loop env (effective_max_turns y) 0 (set_max_turns y c) = (lo, t', set_max_turns y c2)"
    using l by (simp_all add: set_max_turns_stream_loop)
  with StreamWithTools assms show ?thesis
    by (simp add: run_pending_def stream_with_tools_def Let_def)
next
  case CompleteWithTools
  obtain lo t' c2 where l: "complete_loop env (effective_max_turns y) 0 c = (lo, t', c2)"
    by (cases "complete_loop env (effective_max_turns y) 0 c") auto
  have "complete_loop env (effective_max_turns y) 0 (set_max_turns x c) = (lo, t', set_max_turns x c2)"
       "complete_loop env (effective_max_turns y) 0 (set_max_turns y c) = (lo, t', set_max_turns y c2)"
    using l by (simp_all add: set_max_turns_complete_loop)
  with CompleteWithTools assms show ?thesis
    by (simp add: run_pending_def complete_with_tools_def Let_def)
next
  case Exhausted
  then show ?thesis by (simp add: run_pending_def)
qed

text \<open>
  Claim C10. \<open>max_turns = 0\<close> and \<open>max_turns = None\<close> both give the bound 10: either loop,
  run on a client with one of these settings, yields what it yields with \<open>max_turns = 10\<close>
  and leaves the same client (up to the setting itself); with \<open>max_turns = 0\<close> the
  provider is called at least once.
\<close>

theorem max_turns_zero_or_unset_means_ten:
  "effective_max_turns (Some 0) = 10 \<and> effective_max_turns None = 10
   \<and> stream_with_tools env (set_max_turns (Some 0) c)
       = map_prod id (set_max_turns (Some 0)) (stream_with_tools env (set_max_turns (Some 10) c))
   \<and> stream_with_tools env (set_max_turns None c)
       = map_prod id (set_max_turns None) (stream_with_tools env (set_max_turns (Some 10) c))
   \<and> complete_with_tools env (set_max_turns (Some 0) c)
       = map_prod id (set_max_turns (Some 0)) (complete_with_tools env (set_max_turns (Some 10) c))
   \<and> complete_with_tools env (set_max_turns None c)
       = map_prod id (set_max_turns None) (complete_with_tools env (set_max_turns (Some 10) c))
   \<and> provider_calls c < provider_calls (snd (stream_with_tools env (set_max_turns (Some 0) c)))
   \<and> provider_calls c < provider_calls (snd (complete_with_tools env (set_max_turns (Some 0) c)))"
proof -
  have e: "effective_max_turns (Some 0) = 10" "effective_max_turns None = 10"
          "effective_max_turns (Some 10) = 10"
    by (simp_all add: effective_max_turns_def)
  have s0: "run_pending env StreamWithTools (set_max_turns (Some 0) c)
           = map_prod id (set_max_turns (Some 0)) (run_pending env StreamWithTools (set_max_turns (Some 10) c))"
    by (rule run_pending_same_bound) (simp add: e)
  have sn: "run_pending env StreamWithTools (set_max_turns None c)
           = map_prod id (set_max_turns None) (run_pending env StreamWithTools (set_max_turns (Some 10) c))"
    by (rule run_pending_same_bound) (simp add: e)
  have c0: "run_pending env CompleteWithTools (set_max_turns (Some 0) c)
           = map_prod id (set_max_turns (Some 0)) (run_pending env CompleteWithTools (set_max_turns (Some 10) c))"
    by (rule run_pending_same_bound) (simp add: e)
  have cn: "run_pending env CompleteWithTools (set_max_turns None c)
           = map_prod id (set_max_turns None) (run_pending env CompleteWithTools (set_max_turns (Some 10) c))"
    by (rule run_pending_same_bound) (simp add: e)
  have ps: "provider_calls c < provider_calls (snd (stream_with_tools env (set_max_turns (Some 0) c)))"
  proof -
    obtain lo t' c2 where l: "stream_loop env 10 0 (set_max_turns (Some 0) c) = (lo, t', c2)"
      by (cases "stream_loop env 10 0 (set_max_turns (Some 0) c)") auto
    from stream_loop_props[OF l] have "int (provider_calls c2) = int (provider_calls c) + t'" "0 < t'"
      by simp_all
    then have "provider_calls c < provider_calls c2" by linarith
    with l show ?thesis by (simp add: stream_with_tools_def e Let_def)
  qed
  have pc: "provider_calls c < provider_calls (snd (complete_with_tools env (set_max_turns (Some 0) c)))"
  proof -
    obtain lo t' c2 where l: "complete_loop env 10 0 (set_max_turns (Some 0) c) = (lo, t', c2)"
      by (cases "complete_loop env 10 0 (set_max_turns (Some 0) c)") auto
    from complete_loop_props[OF l] have "int (provider_calls c2) = int (provider_calls c) + t'" "0 < t'"
      by simp_all
    then have "provider_calls c < provider_calls c2" by linarith
    with l show ?thesis by (simp add: complete_with_tools_def e Let_def)
  qed
  from e s0 sn c0 cn ps pc show ?thesis by (simp add: run_pending_def)
qed


section \<open>The OpenAI stream\<close>

lemma oa_tool_call_step_event:
  "oa_tool_call_step tc tcs = (ev, tcs') \<Longrightarrow>
     event_type ev = ''tool_call_delta'' \<and> ev_index ev = Some (tc_index tc)
     \<and> delta_type ev = PStr ''tool_call''
     \<and> delta_field ev ''arguments'' = str_or_empty (Option.bind (tc_function tc) fn_arguments)"
  by (auto simp: oa_tool_call_step_def Let_def delta_type_def delta_field_def dict_get_def
        opt_str_def str_or_empty_def split: option.splits)

lemma str_truthy_or_empty: "\<not> str_truthy s \<Longrightarrow> str_or_empty s = []"
  by (auto simp: str_truthy_def str_or_empty_def split: option.splits)

lemma map_entry_lookup:
  "map_of (AList.map_entry k f al) k' = (if k' = k then map_option f (map_of al k) else map_of al k')"
  by (simp add: map_of_map_entry split: option.splits)

lemma oa_tool_call_step_lookup:
  "oa_tool_call_step tc tcs = (ev, tcs') \<Longrightarrow>
     (\<exists>a. map_of tcs' (tc_index tc) = Some a
          \<and> acc_arguments a = args_of tcs (tc_index tc)
                               @ str_or_empty (Option.bind (tc_function tc) fn_arguments))
     \<and> (\<forall>i. i \<noteq> tc_index tc \<longrightarrow> map_of tcs' i = map_of tcs i)"
proof -
  assume a: "oa_tool_call_step tc tcs = (ev, tcs')"
  define idx where "idx = tc_index tc"
  define tcs1 where "tcs1 = (if map_of tcs idx = None
                  then AList.update idx \<lparr>acc_id = str_or_empty (tc_id tc), acc_name = [],
                                         acc_arguments = []\<rparr> tcs
                  else tcs)"
  define tcs2 where "tcs2 = (if str_truthy (tc_id tc)
                  then AList.map_entry idx (\<lambda>a. a\<lparr>acc_id := str_or_empty (tc_id tc)\<rparr>) tcs1
                  else tcs1)"
  have l1: "\<exists>a. map_of tcs1 idx = Some a \<and> acc_arguments a = args_of tcs idx"
    by (cases "map_of tcs idx") (simp_all add: tcs1_def update_conv' args_of_def)
  have o1: "i \<noteq> idx \<Longrightarrow> map_of tcs1 i = map_of tcs i" for i
    by (simp add: tcs1_def update_conv')
  have l2: "\<exists>a. map_of tcs2 idx = Some a \<and> acc_arguments a = args_of tcs idx"
    using l1 by (auto simp: tcs2_def map_entry_lookup)
  have o2: "i \<noteq> idx \<Longrightarrow> map_of tcs2 i = map_of tcs i" for i
    using o1 by (simp add: tcs2_def map_entry_lookup)
  show ?thesis
  proof (cases "tc_function tc")
    case None
    then have "snd (oa_tool_call_step tc tcs) = tcs2"
      by (simp add: oa_tool_call_step_def Let_def idx_def tcs1_def tcs2_def)
    with a have "tcs' = tcs2" by simp
    with l2 o2 None show ?thesis by (simp add: idx_def str_or_empty_def)
  next
    case (Some f)
    define t1 where "t1 = (if str_truthy (fn_name f)
                                 then AList.map_entry idx (\<lambda>a. a\<lparr>acc_name := str_or_empty (fn_name f)\<rparr>) tcs2
                                 else tcs2)"
    define t2 where "t2 = (if str_truthy (fn_arguments f)
                          then AList.map_entry idx
                                 (\<lambda>a. a\<lparr>acc_arguments := acc_arguments a @ str_or_empty (fn_arguments f)\<rparr>) t1
                          else t1)"
    from Some have "snd (oa_tool_call_step tc tcs) = t2"
      by (simp add: oa_tool_call_step_def Let_def idx_def tcs1_def tcs2_def t1_def t2_def)
    with a have t: "tcs' = t2" by simp
    have l3: "\<exists>a. map_of t1 idx = Some a \<and> acc_arguments a = args_of tcs idx"
      using l2 by (auto simp: t1_def map_entry_lookup)
    have o3: "i \<noteq> idx \<Longrightarrow> map_of t1 i = map_of tcs i" for i
      using o2 by (simp add: t1_def map_entry_lookup)
    have l4: "\<exists>a. map_of t2 idx = Some a
                 \<and> acc_arguments a = args_of tcs idx @ str_or_empty (fn_arguments f)"
      using l3 by (auto simp: t2_def map_entry_lookup str_truthy_or_empty)
    have o4: "i \<noteq> idx \<Longrightarrow> map_of t2 i = map_of tcs i" for i
      using o3 by (simp add: t2_def map_entry_lookup)
    from l4 o4 t Some show ?thesis by (simp add: idx_def)
  qed
qed

lemma oa_tool_call_step_distinct:
  "distinct (map fst tcs) \<Longrightarrow> distinct (map fst (snd (oa_tool_call_step tc tcs)))"
  by (simp add: oa_tool_call_step_def Let_def distinct_update distinct_map_entry
           split: option.splits)

lemma tool_call_readers_append [simp]:
  "tool_call_index_list (xs @ ys) = tool_call_index_list xs @ tool_call_index_list ys"
  "tool_call_arguments i (xs @ ys) = tool_call_arguments i xs @ tool_call_arguments i ys"
  "text_payloads ty (xs @ ys) = text_payloads ty xs @ text_payloads ty ys"
  by (simp_all add: tool_call_index_list_def tool_call_arguments_def text_payloads_def)

lemma tool_call_readers_nil [simp]:
  "tool_call_index_list [] = []" "tool_call_arguments i [] = []" "text_payloads ty [] = []"
  by (simp_all add: tool_call_index_list_def tool_call_arguments_def text_payloads_def)

lemma tool_event_read:
  assumes "event_type ev = ''tool_call_delta''" and "ev_index ev = Some k"
  shows "tool_call_index_list [ev] = [k]"
    and "tool_call_arguments i [ev] = (if i = k then delta_field ev ''arguments'' else [])"
    and "text_payloads ty [ev] = []"
  using assms
  by (auto simp: tool_call_index_list_def tool_call_arguments_def text_payloads_def)

lemma oa_tool_calls_loop_props:
  "oa_tool_calls_loop tcl tcs = (evs, tcs') \<Longrightarrow>
     list_all openai_event evs
     \<and> text_payloads ty evs = []
     \<and> dom (map_of tcs') = dom (map_of tcs) \<union> set (tool_call_index_list evs)
     \<and> (distinct (map fst tcs) \<longrightarrow> distinct (map fst tcs'))
     \<and> (\<forall>i. args_of tcs' i = args_of tcs i @ tool_call_arguments i evs)"
proof (induction tcl arbitrary: tcs evs tcs')
  case Nil
  then show ?case by simp
next
  case (Cons tc tcl)
  obtain ev tcs1 where step: "oa_tool_call_step tc tcs = (ev, tcs1)"
    by (cases "oa_tool_call_step tc tcs") auto
  obtain evs1 tcs2 where rest: "oa_tool_calls_loop tcl tcs1 = (evs1, tcs2)"
    by (cases "oa_tool_calls_loop tcl tcs1") auto
  from Cons.prems step rest have evs: "evs = [ev] @ evs1" and t: "tcs' = tcs2" by simp_all
  note e = oa_tool_call_step_event[OF step]
  note l = oa_tool_call_step_lookup[OF step]
  note rd = tool_event_read[of ev "tc_index tc"]
  from e have oe: "openai_event ev" by (simp add: openai_event_def)
  have dom1: "dom (map_of tcs1) = insert (tc_index tc) (dom (map_of tcs))"
  proof (rule set_eqI)
    fix x
    show "x \<in> dom (map_of tcs1) \<longleftrightarrow> x \<in> insert (tc_index tc) (dom (map_of tcs))"
      using l by (cases "x = tc_index tc") (auto simp: dom_def)
  qed
  from oa_tool_call_step_distinct[of tcs tc] step
  have d1: "distinct (map fst tcs) \<longrightarrow> distinct (map fst tcs1)" by simp
  have a1: "args_of tcs1 i = args_of tcs i @ tool_call_arguments i [ev]" for i
  proof (cases "i = tc_index tc")
    case True
    with l e rd show ?thesis by (auto simp: args_of_def)
  next
    case False
    with l e rd show ?thesis by (simp add: args_of_def)
  qed
  note ih = Cons.IH[OF rest]
  from ih oe e rd dom1 d1 a1 show ?case
    unfolding evs t by (simp only: tool_call_readers_append) auto
qed

lemma str_truthy_nonempty: "str_truthy s \<Longrightarrow> str_or_empty s \<noteq> []"
  by (auto simp: str_truthy_def str_or_empty_def split: option.splits)

lemma text_event_read:
  assumes "ev = \<lparr>event_type = ''content_block_delta'', ev_index = None,
                  ev_delta = Some [(''type'', PStr ''text''), (''text'', PStr t)]\<rparr>"
  shows "tool_call_index_list [ev] = []" and "tool_call_arguments i [ev] = []"
    and "text_payloads ''text'' [ev] = [t]" and "t \<noteq> [] \<Longrightarrow> openai_event ev"
  using assms
  by (simp_all add: tool_call_index_list_def tool_call_arguments_def text_payloads_def
        openai_event_def delta_type_def delta_field_def dict_get_def)

lemma oa_chunk_step_props:
  assumes "oa_chunk_step chunk st = (evs, st')"
  shows "list_all openai_event evs
     \<and> content_text st' = content_text st @ concat (text_payloads ''text'' evs)
     \<and> dom (map_of (oa_tool_calls st'))
         = dom (map_of (oa_tool_calls st)) \<union> set (tool_call_index_list evs)
     \<and> (distinct (map fst (oa_tool_calls st)) \<longrightarrow> distinct (map fst (oa_tool_calls st')))
     \<and> (\<forall>i. args_of (oa_tool_calls st') i = args_of (oa_tool_calls st) i @ tool_call_arguments i evs)"
proof (cases "ck_choices chunk")
  case Nil
  with assms show ?thesis
    by (auto simp: oa_chunk_step_def split: option.splits)
next
  case (Cons choice others)
  define d where "d = ch_delta choice"
  define st1 where "st1 = (if str_truthy (ck_model chunk)
                      then st\<lparr>oa_model := str_or_empty (ck_model chunk)\<rparr> else st)"
  define tev where "tev = \<lparr>event_type = ''content_block_delta'', ev_index = None,
                           ev_delta = Some [(''type'', PStr ''text''),
                                            (''text'', PStr (str_or_empty (d_content d)))]\<rparr>"
  define tevs where "tevs = (if str_truthy (d_content d) then [tev] else [])"
  define st2 where "st2 = (if str_truthy (d_content d)
                           then st1\<lparr>content_text := content_text st1 @ str_or_empty (d_content d)\<rparr>
                           else st1)"
  define tcl where "tcl = (case d_tool_calls d of None \<Rightarrow> [] | Some l \<Rightarrow> l)"
  obtain cevs tcs where loop: "oa_tool_calls_loop tcl (oa_tool_calls st2) = (cevs, tcs)"
    by (cases "oa_tool_calls_loop tcl (oa_tool_calls st2)") auto
  have res: "fst (oa_chunk_step chunk st) = tevs @ cevs
           \<and> content_text (snd (oa_chunk_step chunk st)) = content_text st2
           \<and> oa_tool_calls (snd (oa_chunk_step chunk st)) = tcs"
  proof (cases "d_tool_calls d")
    case None
    with loop have "cevs = []" "tcs = oa_tool_calls st2" by (simp_all add: tcl_def)
    with None Cons show ?thesis
      by (simp add: oa_chunk_step_def Let_def d_def[symmetric] st1_def[symmetric] tevs_def tev_def
            st2_def)
  next
    case (Some l)
    with loop have "oa_tool_calls_loop l (oa_tool_calls st2) = (cevs, tcs)" by (simp add: tcl_def)
    moreover have "oa_tool_calls st2 = oa_tool_calls st1" by (simp add: st2_def)
    ultimately have "oa_tool_calls_loop l (oa_tool_calls st1) = (cevs, tcs)" by simp
    with Some Cons show ?thesis
      by (simp add: oa_chunk_step_def Let_def d_def[symmetric] st1_def[symmetric] tevs_def tev_def
            st2_def)
  qed
  with assms have evs: "evs = tevs @ cevs"
    and ct: "content_text st' = content_text st2" and tc: "oa_tool_calls st' = tcs"
    by simp_all
  have st2_tc: "oa_tool_calls st2 = oa_tool_calls st"
    by (simp add: st2_def st1_def)
  have st2_ct: "content_text st2 = content_text st @ concat (text_payloads ''text'' tevs)"
    using text_event_read(3)[OF tev_def]
    by (simp add: st2_def st1_def tevs_def)
  have tev_none: "tool_call_index_list tevs = []" "tool_call_arguments i tevs = []" for i
    using text_event_read(1,2)[OF tev_def] by (simp_all add: tevs_def)
  have tev_ok: "list_all openai_event tevs"
    using text_event_read(4)[OF tev_def] str_truthy_nonempty[of "d_content d"]
    by (simp add: tevs_def)
  note lp = oa_tool_calls_loop_props[OF loop, of "''text''"]
  from lp tev_none tev_ok st2_ct st2_tc show ?thesis
    unfolding evs ct tc by (simp only: tool_call_readers_append) simp
qed

lemma oa_chunks_props:
  "oa_chunks chunks st = (evs, st') \<Longrightarrow>
     list_all openai_event evs
     \<and> content_text st' = content_text st @ concat (text_payloads ''text'' evs)
     \<and> dom (map_of (oa_tool_calls st'))
         = dom (map_of (oa_tool_calls st)) \<union> set (tool_call_index_list evs)
     \<and> (distinct (map fst (oa_tool_calls st)) \<longrightarrow> distinct (map fst (oa_tool_calls st')))
     \<and> (\<forall>i. args_of (oa_tool_calls st') i = args_of (oa_tool_calls st) i @ tool_call_arguments i evs)"
proof (induction chunks arbitrary: st evs st')
  case Nil
  then show ?case by simp
next
  case (Cons chunk chunks)
  obtain evs1 st1 where step: "oa_chunk_step chunk st = (evs1, st1)"
    by (cases "oa_chunk_step chunk st") auto
  obtain evs2 st2 where rest: "oa_chunks chunks st1 = (evs2, st2)"
    by (cases "oa_chunks chunks st1") auto
  from Cons.prems step rest have evs: "evs = evs1 @ evs2" and s: "st' = st2" by simp_all
  from oa_chunk_step_props[OF step] Cons.IH[OF rest] show ?case
    unfolding evs s by (simp only: tool_call_readers_append) auto
qed


lemma stream_events_of_map [simp]:
  "stream_events_of (map StreamEvent evs @ rest) = evs @ stream_events_of rest"
  by (induction evs) simp_all

lemma openai_stream_events:
  "stream_events_of (openai_stream loads chunks) = fst (oa_chunks chunks oa_initial)"
  by (simp add: openai_stream_def provider_result_def split: prod.splits)


text \<open>
  Claim C6, as it holds on the code. The OpenAI provider emits two kinds of stream events
  and no others: \<open>content_block_delta\<close> events that carry a non-empty text fragment and
  no index, and \<open>tool_call_delta\<close> events that carry the tool call's index and have
  delta type \<open>tool_call\<close>. It emits no \<open>content_block_start\<close> and no
  \<open>content_block_stop\<close>.
\<close>

theorem openai_stream_event_types:
  "list_all openai_event (stream_events_of (openai_stream loads chunks))"
proof -
  obtain evs st where r: "oa_chunks chunks oa_initial = (evs, st)"
    by (cases "oa_chunks chunks oa_initial") auto
  from oa_chunks_props[OF r] show ?thesis
    by (simp add: openai_stream_events r)
qed

theorem openai_stream_event_types_witness:
  "stream_events_of (openai_stream (\<lambda>s. None)
     [\<lparr>ck_choices = [\<lparr>ch_delta = \<lparr>d_content = Some ''Hi'', d_tool_calls = None\<rparr>,
                       ch_finish_reason = None\<rparr>],
       ck_usage = None, ck_model = Some ''gpt-4o''\<rparr>,
      \<lparr>ck_choices = [\<lparr>ch_delta = \<lparr>d_content = None,
                                    d_tool_calls = Some [\<lparr>tc_index = 0, tc_id = Some ''call_1'',
                                       tc_function = Some \<lparr>fn_name = Some ''add'',
                                                           fn_arguments = Some ''{}''\<rparr>\<rparr>]\<rparr>,
                       ch_finish_reason = Some ''tool_calls''\<rparr>],
       ck_usage = None, ck_model = Some ''gpt-4o''\<rparr>])
   = [\<lparr>event_type = ''content_block_delta'', ev_index = None,
       ev_delta = Some [(''type'', PStr ''text''), (''text'', PStr ''Hi'')]\<rparr>,
      \<lparr>event_type = ''tool_call_delta'', ev_index = Some 0,
       ev_delta = Some [(''type'', PStr ''tool_call''), (''id'', PStr ''call_1''),
                        (''name'', PStr ''add''), (''arguments'', PStr ''{}'')]\<rparr>]
   \<and> list_all openai_event
       [\<lparr>event_type = ''content_block_delta'', ev_index = None,
         ev_delta = Some [(''type'', PStr ''text''), (''text'', PStr ''Hi'')]\<rparr>,
        \<lparr>event_type = ''tool_call_delta'', ev_index = Some 0,
         ev_delta = Some [(''type'', PStr ''tool_call''), (''id'', PStr ''call_1''),
                          (''name'', PStr ''add''), (''arguments'', PStr ''{}'')]\<rparr>]"
  using openai_stream_event_types[of "\<lambda>s. None"
     "[\<lparr>ck_choices = [\<lparr>ch_delta = \<lparr>d_content = Some ''Hi'', d_tool_calls = None\<rparr>,
                       ch_finish_reason = None\<rparr>],
       ck_usage = None, ck_model = Some ''gpt-4o''\<rparr>,
      \<lparr>ck_choices = [\<lparr>ch_delta = \<lparr>d_content = None,
                                    d_tool_calls = Some [\<lparr>tc_index = 0, tc_id = Some ''call_1'',
                                       tc_function = Some \<lparr>fn_name = Some ''add'',
                                                           fn_arguments = Some ''{}''\<rparr>\<rparr>]\<rparr>,
                       ch_finish_reason = Some ''tool_calls''\<rparr>],
       ck_usage = None, ck_model = Some ''gpt-4o''\<rparr>]"]
  by (simp add: openai_stream_events oa_chunk_step_def oa_tool_call_step_def oa_initial_def
        Let_def str_truthy_def str_or_empty_def opt_str_def)

text \<open>
  Claim C6 as stated fails on a two-chunk stream, one text fragment and one tool-call
  fragment: the first event is a \<open>content_block_delta\<close> whose delta type is \<open>text\<close>, the
  second has the event type \<open>tool_call_delta\<close>.
\<close>

theorem openai_stream_events_not_canonical_counterexample:
  "stream_events_of (openai_stream (\<lambda>s. None)
     [\<lparr>ck_choices = [\<lparr>ch_delta = \<lparr>d_content = Some ''Hi'', d_tool_calls = None\<rparr>,
                       ch_finish_reason = None\<rparr>],
       ck_usage = None, ck_model = Some ''gpt-4o''\<rparr>,
      \<lparr>ck_choices = [\<lparr>ch_delta = \<lparr>d_content = None,
                                    d_tool_calls = Some [\<lparr>tc_index = 0, tc_id = Some ''call_1'',
                                       tc_function = Some \<lparr>fn_name = Some ''add'',
                                                           fn_arguments = Some ''{}''\<rparr>\<rparr>]\<rparr>,
                       ch_finish_reason = Some ''tool_calls''\<rparr>],
       ck_usage = None, ck_model = Some ''gpt-4o''\<rparr>])
   = [\<lparr>event_type = ''content_block_delta'', ev_index = None,
       ev_delta = Some [(''type'', PStr ''text''), (''text'', PStr ''Hi'')]\<rparr>,
      \<lparr>event_type = ''tool_call_delta'', ev_index = Some 0,
       ev_delta = Some [(''type'', PStr ''tool_call''), (''id'', PStr ''call_1''),
                        (''name'', PStr ''add''), (''arguments'', PStr ''{}'')]\<rparr>]
   \<and> \<not> canonical_event
         \<lparr>event_type = ''content_block_delta'', ev_index = None,
          ev_delta = Some [(''type'', PStr ''text''), (''text'', PStr ''Hi'')]\<rparr>
   \<and> \<not> canonical_event
         \<lparr>event_type = ''tool_call_delta'', ev_index = Some 0,
          ev_delta = Some [(''type'', PStr ''tool_call''), (''id'', PStr ''call_1''),
                           (''name'', PStr ''add''), (''arguments'', PStr ''{}'')]\<rparr>"
  by (simp add: openai_stream_events oa_chunk_step_def oa_tool_call_step_def oa_initial_def
        Let_def str_truthy_def str_or_empty_def opt_str_def canonical_event_def delta_type_def
        dict_get_def)


section \<open>The stream and the final message\<close>

lemma block_texts_append [simp]: "block_texts (xs @ ys) = block_texts xs @ block_texts ys"
  by (induction xs rule: block_texts.induct) simp_all

lemma tool_uses_of_append [simp]: "tool_uses_of (xs @ ys) = tool_uses_of xs @ tool_uses_of ys"
  by (induction xs rule: tool_uses_of.induct) simp_all


lemma text_payloads_append [simp]:
  "text_payloads ty (xs @ ys) = text_payloads ty xs @ text_payloads ty ys"
  by (simp add: text_payloads_def)













lemma block_texts_tool_uses [simp]: "block_texts (map (\<lambda>x. ToolUse (f x)) xs) = []"
  by (induction xs) simp_all

lemma tool_uses_of_tool_uses [simp]: "tool_uses_of (map (\<lambda>x. ToolUse (f x)) xs) = map f xs"
  by (induction xs) simp_all
















end
